theory Spec2Isabelle
  imports Complex_Main "HOL-Library.AList"
begin

section \<open>Annotation payloads: JSON values and Python dictionaries\<close>

text \<open>
  The module \<^verbatim>\<open>h/schemas/annotation.py\<close> works on decoded JSON: \<^verbatim>\<open>None\<close>, booleans,
  integers, floats, unicode strings, lists and dicts keyed by strings. A dict is an
  association list read with \<open>map_of\<close> (the first binding of a key counts), written with
  \<open>AList.update\<close> (an existing key keeps its place, a new key goes last, as in Python)
  and emptied of a key with \<open>AList.delete\<close>. Strings are \<open>string\<close>, so the model covers
  the code points below 256. A float stands for the real number it denotes.
\<close>

datatype json =
    JNull
  | JBool bool
  | JInt int
  | JFloat real
  | JStr string
  | JArr "json list"
  | JObj "(string \<times> json) list"

type_synonym dict = "(string \<times> json) list"

datatype error =
    ValidationError string
  | SchemaValidationError
  | KeyError string
  | TypeError

text \<open>
  \<open>ValidationError msg\<close> is the error the two pipelines raise themselves.
  \<open>SchemaValidationError\<close> is the \<^verbatim>\<open>ValidationError\<close> raised by the structural validator;
  its message is composed by the jsonschema library and is not modelled. \<open>TypeError\<close>
  marks the branches where a value has a type that the structural schema has already
  excluded; they are shown unreachable below.
\<close>

definition bindE :: "error + 'a \<Rightarrow> ('a \<Rightarrow> error + 'b) \<Rightarrow> error + 'b" where
  "bindE m f = (case m of Inl e \<Rightarrow> Inl e | Inr x \<Rightarrow> f x)"

text \<open>Python truth value of a decoded JSON value (\<^verbatim>\<open>if x\<close>, \<^verbatim>\<open>x or y\<close>).\<close>

fun truthy :: "json \<Rightarrow> bool" where
  "truthy JNull = False"
| "truthy (JBool b) = b"
| "truthy (JInt i) = (i \<noteq> 0)"
| "truthy (JFloat r) = (r \<noteq> 0)"
| "truthy (JStr s) = (s \<noteq> [])"
| "truthy (JArr xs) = (xs \<noteq> [])"
| "truthy (JObj kvs) = (kvs \<noteq> [])"

text \<open>\<^verbatim>\<open>d.pop(key, default)\<close>: the value and the dict without the key.\<close>

definition pop :: "string \<Rightarrow> json \<Rightarrow> dict \<Rightarrow> json \<times> dict" where
  "pop key dflt d =
     (case map_of d key of
        None \<Rightarrow> (dflt, d)
      | Some v \<Rightarrow> (v, AList.delete key d))"

text \<open>\<^verbatim>\<open>d.get(key, default)\<close>.\<close>

definition get :: "dict \<Rightarrow> string \<Rightarrow> json \<Rightarrow> json" where
  "get d key dflt = (case map_of d key of None \<Rightarrow> dflt | Some v \<Rightarrow> v)"

text \<open>
  \<^verbatim>\<open>unicode.strip()\<close>: the characters Python counts as whitespace, among the code
  points below 256, are removed from both ends.
\<close>

definition isspace :: "char \<Rightarrow> bool" where
  "isspace c \<longleftrightarrow>
     c \<in> set [CHR 0x09, CHR 0x0A, CHR 0x0B, CHR 0x0C, CHR 0x0D,
              CHR 0x1C, CHR 0x1D, CHR 0x1E, CHR 0x1F, CHR 0x20,
              CHR 0x85, CHR 0xA0]"

definition strip :: "string \<Rightarrow> string" where
  "strip s = rev (dropWhile isspace (rev (dropWhile isspace s)))"

text \<open>Reading a value at the type the schema gives it.\<close>

fun as_str :: "json \<Rightarrow> error + string" where
  "as_str (JStr s) = Inr s"
| "as_str _ = Inl TypeError"

fun as_dict :: "json \<Rightarrow> error + dict" where
  "as_dict (JObj d) = Inr d"
| "as_dict _ = Inl TypeError"

fun as_dicts :: "json list \<Rightarrow> error + dict list" where
  "as_dicts [] = Inr []"
| "as_dicts (x # xs) =
     bindE (as_dict x) (\<lambda>d. bindE (as_dicts xs) (\<lambda>ds. Inr (d # ds)))"

fun as_targets :: "json \<Rightarrow> error + dict list" where
  "as_targets (JArr xs) = as_dicts xs"
| "as_targets _ = Inl TypeError"


section \<open>The structural schema\<close>

text \<open>
  \<^verbatim>\<open>AnnotationSchema.schema\<close>, keyword by keyword, under the Draft 4 rules of the
  jsonschema library: \<^verbatim>\<open>type\<close> fixes the Python type, \<^verbatim>\<open>properties\<close> constrains a key only
  when it is present, \<^verbatim>\<open>required\<close> asks for the key, \<^verbatim>\<open>items\<close> constrains every element,
  \<^verbatim>\<open>pattern\<close> and \<^verbatim>\<open>patternProperties\<close> search with \<^verbatim>\<open>re.search\<close>.
\<close>

fun is_string :: "json \<Rightarrow> bool" where
  "is_string (JStr s) = True"
| "is_string _ = False"

definition property :: "dict \<Rightarrow> string \<Rightarrow> (json \<Rightarrow> bool) \<Rightarrow> bool" where
  "property d key sch = (case map_of d key of None \<Rightarrow> True | Some v \<Rightarrow> sch v)"

definition required :: "dict \<Rightarrow> string \<Rightarrow> bool" where
  "required d key = (map_of d key \<noteq> None)"

definition array_of :: "(json \<Rightarrow> bool) \<Rightarrow> json \<Rightarrow> bool" where
  "array_of sch v = (case v of JArr xs \<Rightarrow> list_all sch xs | _ \<Rightarrow> False)"

text \<open>
  Without \<^verbatim>\<open>re.MULTILINE\<close> the anchor \<^verbatim>\<open>$\<close> matches at the end of the string and
  before a newline that ends the string, and \<^verbatim>\<open>.\<close> matches every character but the
  newline.
\<close>

definition before_dollar :: "string \<Rightarrow> string" where
  "before_dollar s = (if s \<noteq> [] \<and> last s = CHR 0x0A then butlast s else s)"

definition action_pattern :: "string \<Rightarrow> bool" where
  \<comment> \<open>\<^verbatim>\<open>^(admin|delete|read|update)$\<close>\<close>
  "action_pattern key \<longleftrightarrow>
     key \<in> set [''admin'', ''delete'', ''read'', ''update''] \<or>
     before_dollar key \<in> set [''admin'', ''delete'', ''read'', ''update'']"

definition dot_plus_dollar :: "string \<Rightarrow> bool" where
  \<comment> \<open>\<^verbatim>\<open>.+$\<close> on the rest of the string\<close>
  "dot_plus_dollar r \<longleftrightarrow> before_dollar r \<noteq> [] \<and> CHR 0x0A \<notin> set (before_dollar r)"

definition principal_pattern :: "json \<Rightarrow> bool" where
  \<comment> \<open>\<^verbatim>\<open>{'type': 'string', 'pattern': '^(acct:|group:).+$'}\<close>\<close>
  "principal_pattern v =
     (case v of
        JStr s \<Rightarrow>
          (take 5 s = ''acct:'' \<and> dot_plus_dollar (drop 5 s)) \<or>
          (take 6 s = ''group:'' \<and> dot_plus_dollar (drop 6 s))
      | _ \<Rightarrow> False)"

definition dc_schema :: "json \<Rightarrow> bool" where
  "dc_schema v =
     (case v of JObj d \<Rightarrow> property d ''identifier'' (array_of is_string) | _ \<Rightarrow> False)"

definition highwire_schema :: "json \<Rightarrow> bool" where
  "highwire_schema v =
     (case v of
        JObj d \<Rightarrow> property d ''doi'' (array_of is_string) \<and>
                  property d ''pdf_url'' (array_of is_string)
      | _ \<Rightarrow> False)"

definition link_item_schema :: "json \<Rightarrow> bool" where
  "link_item_schema v =
     (case v of
        JObj d \<Rightarrow> property d ''href'' is_string \<and> property d ''type'' is_string \<and>
                  required d ''href''
      | _ \<Rightarrow> False)"

definition document_schema :: "json \<Rightarrow> bool" where
  "document_schema v =
     (case v of
        JObj d \<Rightarrow> property d ''dc'' dc_schema \<and>
                  property d ''highwire'' highwire_schema \<and>
                  property d ''link'' (array_of link_item_schema)
      | _ \<Rightarrow> False)"

definition permissions_schema :: "json \<Rightarrow> bool" where
  "permissions_schema v =
     (case v of
        JObj d \<Rightarrow>
          list_all (\<lambda>(key, x). action_pattern key \<longrightarrow> array_of principal_pattern x) d \<and>
          required d ''read''
      | _ \<Rightarrow> False)"

definition selector_item_schema :: "json \<Rightarrow> bool" where
  "selector_item_schema v =
     (case v of
        JObj d \<Rightarrow> property d ''type'' is_string \<and> required d ''type''
      | _ \<Rightarrow> False)"

definition target_item_schema :: "json \<Rightarrow> bool" where
  "target_item_schema v =
     (case v of
        JObj d \<Rightarrow> property d ''selector'' (array_of selector_item_schema)
      | _ \<Rightarrow> False)"

definition annotation_schema :: "json \<Rightarrow> bool" where
  "annotation_schema v =
     (case v of
        JObj d \<Rightarrow>
          property d ''document'' document_schema \<and>
          property d ''group'' is_string \<and>
          property d ''permissions'' permissions_schema \<and>
          property d ''references'' (array_of is_string) \<and>
          property d ''tags'' (array_of is_string) \<and>
          property d ''target'' (array_of target_item_schema) \<and>
          property d ''text'' is_string \<and>
          property d ''uri'' is_string
      | _ \<Rightarrow> False)"

text \<open>
  Modelled from the spec: \<^verbatim>\<open>JSONSchema.validate\<close> of \<^verbatim>\<open>h.schemas.base\<close>, the base class
  of \<^verbatim>\<open>AnnotationSchema\<close>, is not part of the source at hand. By the specification it
  returns the payload as a validated structure when the payload conforms to the
  structural schema and fails with a validation error otherwise.
\<close>

definition AnnotationSchema_validate :: "json \<Rightarrow> error + json" where
  "AnnotationSchema_validate data =
     (if annotation_schema data then Inr data else Inl SchemaValidationError)"


section \<open>The helper functions\<close>

text \<open>
  The names are the source's without the leading underscore. The functions of
  \<^verbatim>\<open>h.util.document_claims\<close> are external; the pipelines take them as a parameter.
  \<open>shared\<close> takes the permissions dict and the group id as a string;
  \<open>target_selectors\<close> takes the target list that the schema describes, a list of dicts.
\<close>

record document_claims =
  document_uris_from_data :: "json \<Rightarrow> json \<Rightarrow> json"
  document_metas_from_data :: "json \<Rightarrow> json \<Rightarrow> json"

definition protected_fields :: "string list" where
  "protected_fields =
     [''created'', ''updated'', ''user'', ''id'', ''links'', ''flagged'', ''hidden'',
      ''moderation'', ''user_info'']"

definition remove_protected_fields :: "dict \<Rightarrow> dict" where
  "remove_protected_fields appstruct =
     fold (\<lambda>field d. snd (pop field JNull d)) protected_fields appstruct"

definition shared :: "dict \<Rightarrow> string \<Rightarrow> error + bool" where
  "shared permissions gid =
     (case map_of permissions ''read'' of
        None \<Rightarrow> Inl (KeyError ''read'')
      | Some r \<Rightarrow> Inr (r = JArr [JStr (''group:'' @ gid)]))"

fun target_selectors :: "dict list \<Rightarrow> json" where
  "target_selectors [] = JArr []"
| "target_selectors (t # ts) =
     (case map_of t ''selector'' of
        Some s \<Rightarrow> s
      | None \<Rightarrow> JArr [])"

definition document :: "document_claims \<Rightarrow> json \<Rightarrow> json \<Rightarrow> json" where
  "document dc doc claimant =
     (let doc = (if truthy doc then doc else JObj [])
      in JObj [(''document_uri_dicts'', document_uris_from_data dc doc claimant),
               (''document_meta_dicts'', document_metas_from_data dc doc claimant)])"



section \<open>The create pipeline\<close>

record request =
  authenticated_userid :: "string option"

definition userid_value :: "string option \<Rightarrow> json" where
  "userid_value u = (case u of None \<Rightarrow> JNull | Some s \<Rightarrow> JStr s)"

definition uri_required :: error where
  "uri_required = ValidationError ''uri: 'uri' is a required property''"

text \<open>
  \<^verbatim>\<open>CreateAnnotationSchema.validate\<close>. The two dicts \<^verbatim>\<open>appstruct\<close> and \<^verbatim>\<open>new_appstruct\<close>
  are passed along, statement by statement.
\<close>

definition CreateAnnotationSchema_validate ::
  "document_claims \<Rightarrow> request \<Rightarrow> json \<Rightarrow> error + dict" where
  "CreateAnnotationSchema_validate dc req data =
     bindE (AnnotationSchema_validate data) (\<lambda>validated.
     bindE (as_dict validated) (\<lambda>appstruct.
       let new_appstruct = [];
           appstruct = remove_protected_fields appstruct;
           new_appstruct =
             AList.update ''userid'' (userid_value (authenticated_userid req)) new_appstruct;
           (u, appstruct) = pop ''uri'' (JStr []) appstruct
       in
       bindE (as_str u) (\<lambda>u.
       let uri = strip u in
       if uri = [] then Inl uri_required
       else
         let new_appstruct = AList.update ''target_uri'' (JStr uri) new_appstruct;
             (text, appstruct) = pop ''text'' (JStr []) appstruct;
             new_appstruct = AList.update ''text'' text new_appstruct;
             (tags, appstruct) = pop ''tags'' (JArr []) appstruct;
             new_appstruct = AList.update ''tags'' tags new_appstruct;
             (gid, appstruct) = pop ''group'' (JStr ''__world__'') appstruct;
             new_appstruct = AList.update ''groupid'' gid new_appstruct;
             (refs, appstruct) = pop ''references'' (JArr []) appstruct;
             new_appstruct = AList.update ''references'' refs new_appstruct
         in
         bindE
           (case map_of appstruct ''permissions'' of
              Some p \<Rightarrow>
                bindE (as_dict p) (\<lambda>permissions.
                bindE (as_str gid) (\<lambda>g.
                bindE (shared permissions g) (\<lambda>b.
                  Inr (AList.update ''shared'' (JBool b) new_appstruct,
                       AList.delete ''permissions'' appstruct))))
            | None \<Rightarrow>
                Inr (AList.update ''shared'' (JBool False) new_appstruct, appstruct))
           (\<lambda>(new_appstruct, appstruct).
         bindE
           (case map_of appstruct ''target'' of
              Some t \<Rightarrow>
                bindE (as_targets t) (\<lambda>targets.
                  Inr (AList.update ''target_selectors'' (target_selectors targets)
                         new_appstruct,
                       AList.delete ''target'' appstruct))
            | None \<Rightarrow> Inr (new_appstruct, appstruct))
           (\<lambda>(new_appstruct, appstruct).
         let new_appstruct =
               (if truthy refs \<and> map_of new_appstruct ''groupid'' \<noteq> None
                then AList.delete ''groupid'' new_appstruct
                else new_appstruct);
             (doc, appstruct) = pop ''document'' (JObj []) appstruct;
             new_appstruct =
               AList.update ''document'' (document dc doc (JStr uri)) new_appstruct;
             new_appstruct = AList.update ''extra'' (JObj appstruct) new_appstruct
         in Inr new_appstruct)))))"


section \<open>The update pipeline\<close>

record update_schema =
  request :: request
  existing_target_uri :: string
  groupid :: string

text \<open>\<^verbatim>\<open>UpdateAnnotationSchema.validate\<close>.\<close>

definition UpdateAnnotationSchema_validate ::
  "document_claims \<Rightarrow> update_schema \<Rightarrow> json \<Rightarrow> error + dict" where
  "UpdateAnnotationSchema_validate dc self data =
     bindE (AnnotationSchema_validate data) (\<lambda>validated.
     bindE (as_dict validated) (\<lambda>appstruct.
       let new_appstruct = [];
           appstruct = remove_protected_fields appstruct;
           appstruct =
             fold (\<lambda>key d. snd (pop key (JStr []) d))
               [''group'', ''groupid'', ''userid'', ''references''] appstruct
       in
       bindE
         (case map_of appstruct ''uri'' of
            Some u \<Rightarrow>
              bindE (as_str u) (\<lambda>u.
              let new_uri = strip u in
              if new_uri = [] then Inl uri_required
              else Inr (AList.update ''target_uri'' (JStr new_uri) new_appstruct,
                        AList.delete ''uri'' appstruct))
          | None \<Rightarrow> Inr (new_appstruct, appstruct))
         (\<lambda>(new_appstruct, appstruct).
       bindE
         (case map_of appstruct ''permissions'' of
            Some p \<Rightarrow>
              bindE (as_dict p) (\<lambda>permissions.
              bindE (shared permissions (groupid self)) (\<lambda>b.
                Inr (AList.update ''shared'' (JBool b) new_appstruct,
                     AList.delete ''permissions'' appstruct)))
          | None \<Rightarrow> Inr (new_appstruct, appstruct))
         (\<lambda>(new_appstruct, appstruct).
       bindE
         (case map_of appstruct ''target'' of
            Some t \<Rightarrow>
              bindE (as_targets t) (\<lambda>targets.
                Inr (AList.update ''target_selectors'' (target_selectors targets)
                       new_appstruct,
                     AList.delete ''target'' appstruct))
          | None \<Rightarrow> Inr (new_appstruct, appstruct))
         (\<lambda>(new_appstruct, appstruct).
       let (new_appstruct, appstruct) =
             fold (\<lambda>key (n, a).
                     case map_of a key of
                       Some v \<Rightarrow> (AList.update key v n, AList.delete key a)
                     | None \<Rightarrow> (n, a))
               [''text'', ''tags''] (new_appstruct, appstruct);
           (new_appstruct, appstruct) =
             (case map_of appstruct ''document'' of
                Some doc \<Rightarrow>
                  (AList.update ''document''
                     (document dc doc
                        (get new_appstruct ''target_uri'' (JStr (existing_target_uri self))))
                     new_appstruct,
                   AList.delete ''document'' appstruct)
              | None \<Rightarrow> (new_appstruct, appstruct));
           new_appstruct = AList.update ''extra'' (JObj appstruct) new_appstruct
       in Inr new_appstruct)))))"



section \<open>The update pipeline, block by block\<close>

text \<open>
  The blocks of \<^verbatim>\<open>UpdateAnnotationSchema.validate\<close> after the immutable fields have been
  discarded, each as a function of the two dicts. They are only used to reason about the
  pipeline one block at a time; \<open>update_by_steps\<close> below shows that their composition is
  the pipeline itself.
\<close>

definition drop_keys :: "string list \<Rightarrow> dict \<Rightarrow> dict" where
  "drop_keys ks d = filter (\<lambda>kv. fst kv \<notin> set ks) d"

definition opt_update :: "string \<Rightarrow> json option \<Rightarrow> dict \<Rightarrow> dict" where
  "opt_update key val d = (case val of None \<Rightarrow> d | Some v \<Rightarrow> AList.update key v d)"

definition uri_step :: "dict \<Rightarrow> dict \<Rightarrow> error + dict \<times> dict" where
  "uri_step new_appstruct appstruct =
     (case map_of appstruct ''uri'' of
        Some u \<Rightarrow>
          bindE (as_str u) (\<lambda>u.
          let new_uri = strip u in
          if new_uri = [] then Inl uri_required
          else Inr (AList.update ''target_uri'' (JStr new_uri) new_appstruct,
                    AList.delete ''uri'' appstruct))
      | None \<Rightarrow> Inr (new_appstruct, appstruct))"

definition permissions_step :: "string \<Rightarrow> dict \<Rightarrow> dict \<Rightarrow> error + dict \<times> dict" where
  "permissions_step gid new_appstruct appstruct =
     (case map_of appstruct ''permissions'' of
        Some p \<Rightarrow>
          bindE (as_dict p) (\<lambda>permissions.
          bindE (shared permissions gid) (\<lambda>b.
            Inr (AList.update ''shared'' (JBool b) new_appstruct,
                 AList.delete ''permissions'' appstruct)))
      | None \<Rightarrow> Inr (new_appstruct, appstruct))"

definition target_step :: "dict \<Rightarrow> dict \<Rightarrow> error + dict \<times> dict" where
  "target_step new_appstruct appstruct =
     (case map_of appstruct ''target'' of
        Some t \<Rightarrow>
          bindE (as_targets t) (\<lambda>targets.
            Inr (AList.update ''target_selectors'' (target_selectors targets)
                   new_appstruct,
                 AList.delete ''target'' appstruct))
      | None \<Rightarrow> Inr (new_appstruct, appstruct))"

definition copy_step :: "string \<Rightarrow> dict \<times> dict \<Rightarrow> dict \<times> dict" where
  "copy_step key =
     (\<lambda>(n, a).
        case map_of a key of
          Some v \<Rightarrow> (AList.update key v n, AList.delete key a)
        | None \<Rightarrow> (n, a))"

definition document_step ::
  "document_claims \<Rightarrow> string \<Rightarrow> dict \<Rightarrow> dict \<Rightarrow> dict \<times> dict" where
  "document_step dc existing new_appstruct appstruct =
     (case map_of appstruct ''document'' of
        Some doc \<Rightarrow>
          (AList.update ''document''
             (document dc doc (get new_appstruct ''target_uri'' (JStr existing)))
             new_appstruct,
           AList.delete ''document'' appstruct)
      | None \<Rightarrow> (new_appstruct, appstruct))"

definition update_steps :: "document_claims \<Rightarrow> update_schema \<Rightarrow> dict \<Rightarrow> error + dict" where
  "update_steps dc self appstruct =
     bindE (uri_step [] appstruct) (\<lambda>(new_appstruct, appstruct).
     bindE (permissions_step (groupid self) new_appstruct appstruct)
       (\<lambda>(new_appstruct, appstruct).
     bindE (target_step new_appstruct appstruct) (\<lambda>(new_appstruct, appstruct).
       let (new_appstruct, appstruct) =
             fold copy_step [''text'', ''tags''] (new_appstruct, appstruct);
           (new_appstruct, appstruct) =
             document_step dc (existing_target_uri self) new_appstruct appstruct
       in Inr (AList.update ''extra'' (JObj appstruct) new_appstruct))))"

text \<open>The field lists of the two pipelines.\<close>

definition immutable_fields :: "string list" where
  "immutable_fields = [''group'', ''groupid'', ''userid'', ''references'']"

definition create_fields :: "string list" where
  "create_fields =
     [''uri'', ''text'', ''tags'', ''group'', ''references'', ''permissions'', ''target'',
      ''document'']"

definition update_fields :: "string list" where
  "update_fields = [''uri'', ''permissions'', ''target'', ''text'', ''tags'', ''document'']"


text \<open>Stand-ins for the request and the external collaborators, for concrete runs.\<close>

definition sample_claims :: document_claims where
  "sample_claims =
     \<lparr>document_uris_from_data = (\<lambda>doc claimant. JArr [claimant]),
      document_metas_from_data = (\<lambda>doc claimant. JArr [])\<rparr>"

definition sample_request :: request where
  "sample_request = \<lparr>authenticated_userid = Some ''acct:alice@example.com''\<rparr>"

definition sample_update :: update_schema where
  "sample_update =
     \<lparr>request = sample_request, existing_target_uri = ''http://example.com/old'',
      groupid = ''abc''\<rparr>"


section \<open>Dictionaries\<close>

declare AList.delete_id [simp del]

lemma delete_absent: "map_of d key = None \<Longrightarrow> AList.delete key d = d"
  by (induction d) (auto split: if_splits)

lemma pop_eq: "pop key dflt d = (get d key dflt, AList.delete key d)"
  by (simp add: pop_def get_def delete_absent split: option.splits)

lemma delete_as_drop_keys: "AList.delete key d = drop_keys [key] d"
  by (induction d) (auto simp: drop_keys_def)

lemma drop_keys_drop_keys: "drop_keys ks (drop_keys ks' d) = drop_keys (ks' @ ks) d"
  by (induction d) (auto simp: drop_keys_def)

lemma drop_keys_simps:
  "drop_keys ks [] = []"
  "drop_keys ks (kv # d) = (if fst kv \<in> set ks then drop_keys ks d else kv # drop_keys ks d)"
  by (simp_all add: drop_keys_def)

lemma map_of_drop_keys:
  "map_of (drop_keys ks d) key = (if key \<in> set ks then None else map_of d key)"
  by (induction d) (auto simp: drop_keys_def)

lemma keys_drop_keys: "fst ` set (drop_keys ks d) = fst ` set d - set ks"
  by (auto simp: drop_keys_def)

lemma get_drop_keys:
  "key \<notin> set ks \<Longrightarrow> get (drop_keys ks d) key dflt = get d key dflt"
  by (simp add: get_def map_of_drop_keys)

lemma drop_keys_cong:
  "set ks = set ks' \<Longrightarrow> drop_keys ks d = drop_keys ks' d"
  by (simp add: drop_keys_def)

lemma drop_keys_eqI:
  assumes "\<And>k. k \<in> set ks' \<Longrightarrow> k \<notin> set ks \<Longrightarrow> map_of d k = None"
    and "set ks \<subseteq> set ks'"
  shows "drop_keys ks d = drop_keys ks' d"
proof -
  have "fst kv \<in> set ks \<longleftrightarrow> fst kv \<in> set ks'" if "kv \<in> set d" for kv
  proof
    assume "fst kv \<in> set ks"
    with assms(2) show "fst kv \<in> set ks'" by blast
  next
    assume in': "fst kv \<in> set ks'"
    show "fst kv \<in> set ks"
    proof (rule ccontr)
      assume "fst kv \<notin> set ks"
      from assms(1) [OF in' this] have "fst kv \<notin> fst ` set d"
        by (simp add: map_of_eq_None_iff)
      with that show False by force
    qed
  qed
  then show ?thesis
    unfolding drop_keys_def by (intro filter_cong) auto
qed

lemma fold_pop_drop_keys:
  "fold (\<lambda>key d. snd (pop key dflt d)) ks d = drop_keys ks d"
proof (induction ks arbitrary: d)
  case Nil
  show ?case by (simp add: drop_keys_def)
next
  case (Cons k ks)
  have "fold (\<lambda>key d. snd (pop key dflt d)) (k # ks) d =
        fold (\<lambda>key d. snd (pop key dflt d)) ks (snd (pop k dflt d))"
    by simp
  also have "\<dots> = drop_keys ks (snd (pop k dflt d))"
    by (rule Cons.IH)
  also have "\<dots> = drop_keys (k # ks) d"
    by (simp add: pop_eq delete_as_drop_keys drop_keys_drop_keys)
  finally show ?case .
qed

lemma remove_protected_fields_eq:
  "remove_protected_fields a = drop_keys protected_fields a"
  by (simp add: remove_protected_fields_def fold_pop_drop_keys)

lemma map_of_opt_update:
  "map_of (opt_update key' val d) key =
     (if key = key' \<and> val \<noteq> None then val else map_of d key)"
  by (cases val) (simp_all add: opt_update_def AList.update_conv')

section \<open>Validated payloads\<close>

lemma property_Some: "property d key sch \<Longrightarrow> map_of d key = Some v \<Longrightarrow> sch v"
  by (simp add: property_def)

lemma is_string_iff: "is_string v \<longleftrightarrow> (\<exists>s. v = JStr s)"
  by (cases v) auto

lemma array_of_iff: "array_of sch v \<longleftrightarrow> (\<exists>xs. v = JArr xs \<and> list_all sch xs)"
  by (cases v) (auto simp: array_of_def)

lemma as_dicts_targets: "list_all target_item_schema xs \<Longrightarrow> \<exists>ts. as_dicts xs = Inr ts"
proof (induction xs)
  case Nil
  then show ?case by simp
next
  case (Cons x xs)
  then obtain ts where "as_dicts xs = Inr ts" by auto
  moreover from Cons.prems obtain d where "x = JObj d"
    by (cases x) (auto simp: target_item_schema_def)
  ultimately show ?case by (simp add: bindE_def)
qed

lemma annotation_schema_object:
  "annotation_schema data \<Longrightarrow> \<exists>a. data = JObj a"
  by (cases data) (simp_all add: annotation_schema_def)

lemma annotation_schema_props:
  assumes "annotation_schema (JObj a)"
  shows "property a ''document'' document_schema"
    and "property a ''group'' is_string"
    and "property a ''permissions'' permissions_schema"
    and "property a ''references'' (array_of is_string)"
    and "property a ''tags'' (array_of is_string)"
    and "property a ''target'' (array_of target_item_schema)"
    and "property a ''text'' is_string"
    and "property a ''uri'' is_string"
  using assms by (simp_all add: annotation_schema_def)

lemma valid_uri:
  assumes "annotation_schema (JObj a)" and "map_of a ''uri'' = Some v"
  shows "\<exists>u. v = JStr u"
  using property_Some [OF annotation_schema_props(8) [OF assms(1)] assms(2)]
  by (simp add: is_string_iff)

lemma valid_group:
  assumes "annotation_schema (JObj a)" and "map_of a ''group'' = Some v"
  shows "\<exists>g. v = JStr g"
  using property_Some [OF annotation_schema_props(2) [OF assms(1)] assms(2)]
  by (simp add: is_string_iff)

lemma valid_permissions:
  assumes "annotation_schema (JObj a)" and "map_of a ''permissions'' = Some v"
  shows "\<exists>p r. v = JObj p \<and> map_of p ''read'' = Some r"
  using property_Some [OF annotation_schema_props(3) [OF assms(1)] assms(2)]
  by (cases v) (auto simp: permissions_schema_def required_def)

lemma valid_target:
  assumes "annotation_schema (JObj a)" and "map_of a ''target'' = Some v"
  shows "\<exists>xs ts. v = JArr xs \<and> as_dicts xs = Inr ts"
  using property_Some [OF annotation_schema_props(6) [OF assms(1)] assms(2)]
  by (auto simp: array_of_iff dest: as_dicts_targets)

lemma uri_view:
  assumes "annotation_schema (JObj a)"
  shows "\<exists>uo. map_of a ''uri'' = map_option JStr uo"
proof (cases "map_of a ''uri''")
  case None
  then have "map_of a ''uri'' = map_option JStr None" by simp
  then show ?thesis ..
next
  case (Some v)
  with valid_uri [OF assms Some] obtain u where "map_of a ''uri'' = map_option JStr (Some u)"
    by auto
  then show ?thesis ..
qed

lemma group_view:
  assumes "annotation_schema (JObj a)"
  shows "\<exists>g. get a ''group'' (JStr ''__world__'') = JStr g"
proof (cases "map_of a ''group''")
  case None
  then show ?thesis by (simp add: get_def)
next
  case (Some v)
  with valid_group [OF assms Some] show ?thesis by (auto simp: get_def)
qed

lemma permissions_view:
  assumes "annotation_schema (JObj a)"
  shows "\<exists>po. map_of a ''permissions'' = map_option JObj po \<and>
    (\<forall>p. po = Some p \<longrightarrow> map_of p ''read'' \<noteq> None)"
proof (cases "map_of a ''permissions''")
  case None
  show ?thesis
    by (rule exI [of _ None]) (simp add: None)
next
  case (Some v)
  from valid_permissions [OF assms Some] obtain p r
    where v: "v = JObj p" and r: "map_of p ''read'' = Some r" by blast
  show ?thesis
    by (rule exI [of _ "Some p"]) (simp add: Some v r)
qed

lemma target_view:
  assumes "annotation_schema (JObj a)"
  shows "\<exists>xo ts. map_of a ''target'' = map_option JArr xo \<and>
    (\<forall>xs. xo = Some xs \<longrightarrow> as_dicts xs = Inr ts)"
proof (cases "map_of a ''target''")
  case None
  show ?thesis
    by (rule exI [of _ None]) (simp add: None)
next
  case (Some v)
  from valid_target [OF assms Some] obtain xs ts
    where v: "v = JArr xs" and ts: "as_dicts xs = Inr ts" by blast
  show ?thesis
    by (rule exI [of _ "Some xs"], rule exI [of _ ts]) (simp add: Some v ts)
qed

lemma shared_eq:
  "map_of p ''read'' \<noteq> None \<Longrightarrow>
     shared p gid = Inr (map_of p ''read'' = Some (JArr [JStr (''group:'' @ gid)]))"
  by (auto simp: shared_def)

text \<open>The schema constrains the eight recognised keys and nothing else.\<close>

lemma annotation_schema_cong:
  assumes "\<And>k. k \<in> set create_fields \<Longrightarrow> map_of b k = map_of a k"
  shows "annotation_schema (JObj b) = annotation_schema (JObj a)"
proof -
  have "map_of b ''document'' = map_of a ''document''"
    "map_of b ''group'' = map_of a ''group''"
    "map_of b ''permissions'' = map_of a ''permissions''"
    "map_of b ''references'' = map_of a ''references''"
    "map_of b ''tags'' = map_of a ''tags''"
    "map_of b ''target'' = map_of a ''target''"
    "map_of b ''text'' = map_of a ''text''"
    "map_of b ''uri'' = map_of a ''uri''"
    by (simp_all add: assms create_fields_def)
  then show ?thesis
    by (simp add: annotation_schema_def property_def)
qed

section \<open>The update pipeline as a composition of its blocks\<close>

lemma update_by_steps:
  "UpdateAnnotationSchema_validate dc self data =
     bindE (AnnotationSchema_validate data) (\<lambda>validated.
     bindE (as_dict validated) (\<lambda>appstruct.
       update_steps dc self
         (drop_keys (protected_fields @ [''group'', ''groupid'', ''userid'', ''references''])
            appstruct)))"
  unfolding UpdateAnnotationSchema_validate_def update_steps_def uri_step_def
    permissions_step_def target_step_def copy_step_def document_step_def
    fold_pop_drop_keys remove_protected_fields_eq drop_keys_drop_keys Let_def
  by (rule refl)

lemma uri_step_eq:
  assumes "map_of d ''uri'' = map_option JStr uo"
    and "\<And>u. uo = Some u \<Longrightarrow> strip u \<noteq> []"
  shows "uri_step n d =
    Inr (opt_update ''target_uri'' (map_option (\<lambda>u. JStr (strip u)) uo) n,
         AList.delete ''uri'' d)"
  using assms
  by (cases uo) (simp_all add: uri_step_def opt_update_def bindE_def delete_absent)

lemma uri_step_blank:
  assumes "map_of d ''uri'' = Some (JStr u)" and "strip u = []"
  shows "uri_step n d = Inl uri_required"
  using assms by (simp add: uri_step_def bindE_def)

lemma permissions_step_eq:
  assumes "map_of d ''permissions'' = map_option JObj po"
    and "\<And>p. po = Some p \<Longrightarrow> shared p gid = Inr (sh p)"
  shows "permissions_step gid n d =
    Inr (opt_update ''shared'' (map_option (\<lambda>p. JBool (sh p)) po) n,
         AList.delete ''permissions'' d)"
  using assms
  by (cases po) (simp_all add: permissions_step_def opt_update_def bindE_def delete_absent)

lemma target_step_eq:
  assumes "map_of d ''target'' = map_option JArr xo"
    and "\<And>xs. xo = Some xs \<Longrightarrow> as_dicts xs = Inr ts"
  shows "target_step n d =
    Inr (opt_update ''target_selectors'' (map_option (\<lambda>xs. target_selectors ts) xo) n,
         AList.delete ''target'' d)"
  using assms
  by (cases xo) (simp_all add: target_step_def opt_update_def bindE_def delete_absent)

lemma copy_step_eq:
  "copy_step key (n, d) = (opt_update key (map_of d key) n, AList.delete key d)"
  by (cases "map_of d key") (simp_all add: copy_step_def opt_update_def delete_absent)

lemma document_step_eq:
  "document_step dc existing n d =
     (opt_update ''document''
        (map_option (\<lambda>doc. document dc doc (get n ''target_uri'' (JStr existing)))
           (map_of d ''document'')) n,
      AList.delete ''document'' d)"
  by (cases "map_of d ''document''")
     (simp_all add: document_step_def opt_update_def delete_absent)

lemma update_steps_eq:
  assumes uri: "map_of d ''uri'' = map_option JStr uo"
    and nb: "\<And>u. uo = Some u \<Longrightarrow> strip u \<noteq> []"
    and perms: "map_of d ''permissions'' = map_option JObj po"
    and sh: "\<And>p. po = Some p \<Longrightarrow> shared p (groupid self) = Inr (sh p)"
    and target: "map_of d ''target'' = map_option JArr xo"
    and ts: "\<And>xs. xo = Some xs \<Longrightarrow> as_dicts xs = Inr ts"
  shows "update_steps dc self d =
    Inr (AList.update ''extra'' (JObj (drop_keys update_fields d))
          (opt_update ''document''
             (map_option
                (\<lambda>doc. document dc doc
                   (JStr (case uo of None \<Rightarrow> existing_target_uri self | Some u \<Rightarrow> strip u)))
                (map_of d ''document''))
          (opt_update ''tags'' (map_of d ''tags'')
          (opt_update ''text'' (map_of d ''text'')
          (opt_update ''target_selectors'' (map_option (\<lambda>xs. target_selectors ts) xo)
          (opt_update ''shared'' (map_option (\<lambda>p. JBool (sh p)) po)
          (opt_update ''target_uri'' (map_option (\<lambda>u. JStr (strip u)) uo) [])))))))"
proof -
  have s1: "uri_step [] d =
      Inr (opt_update ''target_uri'' (map_option (\<lambda>u. JStr (strip u)) uo) [],
           AList.delete ''uri'' d)"
    by (rule uri_step_eq [OF uri nb])
  have s2: "permissions_step (groupid self) n (AList.delete ''uri'' d) =
      Inr (opt_update ''shared'' (map_option (\<lambda>p. JBool (sh p)) po) n,
           AList.delete ''permissions'' (AList.delete ''uri'' d))" for n
    by (rule permissions_step_eq [where po = po]) (simp_all add: perms sh)
  have s3: "target_step n (AList.delete ''permissions'' (AList.delete ''uri'' d)) =
      Inr (opt_update ''target_selectors'' (map_option (\<lambda>xs. target_selectors ts) xo) n,
           AList.delete ''target'' (AList.delete ''permissions'' (AList.delete ''uri'' d)))"
    for n
    by (rule target_step_eq [where xo = xo]) (simp_all add: target ts)
  have cl: "get (opt_update ''tags'' x3 (opt_update ''text'' x2
              (opt_update ''target_selectors'' x1 (opt_update ''shared'' x0
                (opt_update ''target_uri'' (map_option (\<lambda>u. JStr (strip u)) uo) [])))))
              ''target_uri'' (JStr (existing_target_uri self)) =
            JStr (case uo of None \<Rightarrow> existing_target_uri self | Some u \<Rightarrow> strip u)"
    for x0 x1 x2 x3
    by (cases uo) (simp_all add: get_def map_of_opt_update)
  have dk: "AList.delete ''document'' (AList.delete ''tags'' (AList.delete ''text''
      (AList.delete ''target'' (AList.delete ''permissions'' (AList.delete ''uri'' d))))) =
      drop_keys update_fields d"
    by (simp add: delete_as_drop_keys drop_keys_drop_keys update_fields_def)
  show ?thesis
    unfolding dk [symmetric]
    by (simp add: update_steps_def s1 s2 s3 bindE_def copy_step_eq document_step_eq cl)
qed

lemma update_steps_blank:
  assumes "map_of d ''uri'' = Some (JStr u)" and "strip u = []"
  shows "update_steps dc self d = Inl uri_required"
  by (simp add: update_steps_def uri_step_blank [OF assms] bindE_def)

section \<open>What the two pipelines return on a validated payload\<close>

lemma update_normal_form:
  assumes valid: "annotation_schema (JObj a)"
    and uri: "map_of a ''uri'' = map_option JStr uo"
    and nb: "\<forall>u. uo = Some u \<longrightarrow> strip u \<noteq> []"
  shows "\<exists>po xo ts.
    map_of a ''permissions'' = map_option JObj po \<and>
    (\<forall>p. po = Some p \<longrightarrow> map_of p ''read'' \<noteq> None) \<and>
    map_of a ''target'' = map_option JArr xo \<and>
    (\<forall>xs. xo = Some xs \<longrightarrow> as_dicts xs = Inr ts) \<and>
    UpdateAnnotationSchema_validate dc self (JObj a) =
      Inr (AList.update ''extra''
            (JObj (drop_keys (protected_fields @ immutable_fields @ update_fields) a))
          (opt_update ''document''
             (map_option
                (\<lambda>doc. document dc doc
                   (JStr (case uo of None \<Rightarrow> existing_target_uri self | Some u \<Rightarrow> strip u)))
                (map_of a ''document''))
          (opt_update ''tags'' (map_of a ''tags'')
          (opt_update ''text'' (map_of a ''text'')
          (opt_update ''target_selectors'' (map_option (\<lambda>xs. target_selectors ts) xo)
          (opt_update ''shared''
             (map_option
                (\<lambda>p. JBool (map_of p ''read'' =
                   Some (JArr [JStr (''group:'' @ groupid self)]))) po)
          (opt_update ''target_uri'' (map_option (\<lambda>u. JStr (strip u)) uo) [])))))))"
proof -
  let ?d = "drop_keys (protected_fields @ [''group'', ''groupid'', ''userid'', ''references'']) a"
  from permissions_view [OF valid] obtain po
    where po: "map_of a ''permissions'' = map_option JObj po"
      and rd: "\<forall>p. po = Some p \<longrightarrow> map_of p ''read'' \<noteq> None" by blast
  from target_view [OF valid] obtain xo ts
    where xo: "map_of a ''target'' = map_option JArr xo"
      and ts: "\<forall>xs. xo = Some xs \<longrightarrow> as_dicts xs = Inr ts" by blast
  have look: "map_of ?d ''uri'' = map_of a ''uri''"
    "map_of ?d ''permissions'' = map_of a ''permissions''"
    "map_of ?d ''target'' = map_of a ''target''"
    "map_of ?d ''text'' = map_of a ''text''"
    "map_of ?d ''tags'' = map_of a ''tags''"
    "map_of ?d ''document'' = map_of a ''document''"
    by (simp_all add: map_of_drop_keys protected_fields_def)
  have ex: "drop_keys update_fields ?d =
      drop_keys (protected_fields @ immutable_fields @ update_fields) a"
    by (simp add: drop_keys_drop_keys immutable_fields_def)
  have "update_steps dc self ?d =
      Inr (AList.update ''extra'' (JObj (drop_keys update_fields ?d))
          (opt_update ''document''
             (map_option
                (\<lambda>doc. document dc doc
                   (JStr (case uo of None \<Rightarrow> existing_target_uri self | Some u \<Rightarrow> strip u)))
                (map_of ?d ''document''))
          (opt_update ''tags'' (map_of ?d ''tags'')
          (opt_update ''text'' (map_of ?d ''text'')
          (opt_update ''target_selectors'' (map_option (\<lambda>xs. target_selectors ts) xo)
          (opt_update ''shared''
             (map_option
                (\<lambda>p. JBool (map_of p ''read'' =
                   Some (JArr [JStr (''group:'' @ groupid self)]))) po)
          (opt_update ''target_uri'' (map_option (\<lambda>u. JStr (strip u)) uo) [])))))))"
  proof (rule update_steps_eq)
    show "map_of ?d ''uri'' = map_option JStr uo" by (simp only: look uri)
    show "strip u \<noteq> []" if "uo = Some u" for u using nb that by simp
    show "map_of ?d ''permissions'' = map_option JObj po" by (simp only: look po)
    show "shared p (groupid self) =
        Inr (map_of p ''read'' = Some (JArr [JStr (''group:'' @ groupid self)]))"
      if "po = Some p" for p
      using rd that by (simp add: shared_eq)
    show "map_of ?d ''target'' = map_option JArr xo" by (simp only: look xo)
    show "as_dicts xs = Inr ts" if "xo = Some xs" for xs using ts that by simp
  qed
  then have "UpdateAnnotationSchema_validate dc self (JObj a) =
      Inr (AList.update ''extra''
            (JObj (drop_keys (protected_fields @ immutable_fields @ update_fields) a))
          (opt_update ''document''
             (map_option
                (\<lambda>doc. document dc doc
                   (JStr (case uo of None \<Rightarrow> existing_target_uri self | Some u \<Rightarrow> strip u)))
                (map_of a ''document''))
          (opt_update ''tags'' (map_of a ''tags'')
          (opt_update ''text'' (map_of a ''text'')
          (opt_update ''target_selectors'' (map_option (\<lambda>xs. target_selectors ts) xo)
          (opt_update ''shared''
             (map_option
                (\<lambda>p. JBool (map_of p ''read'' =
                   Some (JArr [JStr (''group:'' @ groupid self)]))) po)
          (opt_update ''target_uri'' (map_option (\<lambda>u. JStr (strip u)) uo) [])))))))"
    by (simp only: update_by_steps AnnotationSchema_validate_def valid if_True bindE_def
        sum.case as_dict.simps look ex)
  with po rd xo ts show ?thesis by blast
qed

lemma update_uri_blank:
  assumes valid: "annotation_schema (JObj a)"
    and uri: "map_of a ''uri'' = Some (JStr u)" and blank: "strip u = []"
  shows "UpdateAnnotationSchema_validate dc self (JObj a) = Inl uri_required"
proof -
  let ?d = "drop_keys (protected_fields @ [''group'', ''groupid'', ''userid'', ''references'']) a"
  have "map_of ?d ''uri'' = Some (JStr u)"
    by (simp add: map_of_drop_keys protected_fields_def uri)
  from update_steps_blank [OF this blank] show ?thesis
    by (simp only: update_by_steps AnnotationSchema_validate_def valid if_True bindE_def
        sum.case as_dict.simps)
qed

lemma create_normal_form:
  assumes valid: "annotation_schema (JObj a)"
    and uri: "map_of a ''uri'' = Some (JStr u)" "strip u \<noteq> []"
  shows "\<exists>sh sel.
    (case map_of a ''permissions'' of
       None \<Rightarrow> sh = False
     | Some p \<Rightarrow> \<exists>perms g. p = JObj perms \<and>
         get a ''group'' (JStr ''__world__'') = JStr g \<and> shared perms g = Inr sh) \<and>
    (case map_of a ''target'' of
       None \<Rightarrow> sel = []
     | Some t \<Rightarrow> \<exists>ts. as_targets t = Inr ts \<and>
         sel = [(''target_selectors'', target_selectors ts)]) \<and>
    CreateAnnotationSchema_validate dc req (JObj a) =
      Inr ([(''userid'', userid_value (authenticated_userid req)),
            (''target_uri'', JStr (strip u)),
            (''text'', get a ''text'' (JStr [])),
            (''tags'', get a ''tags'' (JArr []))] @
           (if truthy (get a ''references'' (JArr [])) then []
            else [(''groupid'', get a ''group'' (JStr ''__world__''))]) @
           [(''references'', get a ''references'' (JArr [])),
            (''shared'', JBool sh)] @
           sel @
           [(''document'', document dc (get a ''document'' (JObj [])) (JStr (strip u))),
            (''extra'', JObj (drop_keys (protected_fields @ create_fields) a))])"
proof -
  from group_view [OF valid] obtain g
    where g: "get a ''group'' (JStr ''__world__'') = JStr g" ..
  have gu: "get a ''uri'' (JStr []) = JStr u"
    using uri by (simp add: get_def)
  note unfold = CreateAnnotationSchema_validate_def AnnotationSchema_validate_def valid
    bindE_def pop_eq remove_protected_fields_eq delete_as_drop_keys drop_keys_drop_keys
    map_of_drop_keys get_drop_keys protected_fields_def create_fields_def gu Let_def
    drop_keys_simps
  let ?full = "[''created'', ''updated'', ''user'', ''id'', ''links'',
     ''flagged'', ''hidden'', ''moderation'', ''user_info'', ''uri'', ''text'', ''tags'',
     ''group'', ''references'', ''permissions'', ''target'', ''document'']"
  show ?thesis
  proof (cases "map_of a ''permissions''")
    case None
    note pn = None
    show ?thesis
    proof (cases "map_of a ''target''")
      case None
      have "drop_keys [''created'', ''updated'', ''user'', ''id'', ''links'',
          ''flagged'', ''hidden'', ''moderation'', ''user_info'', ''uri'', ''text'', ''tags'',
          ''group'', ''references'', ''document''] a = drop_keys ?full a"
        by (rule drop_keys_eqI) (use pn None in auto)
      then show ?thesis
        using uri pn None g by (auto simp: unfold)
    next
      case (Some t)
      obtain xs ts where "t = JArr xs" "as_dicts xs = Inr ts"
        using valid_target [OF valid Some] by blast
      moreover have "drop_keys [''created'', ''updated'', ''user'', ''id'', ''links'',
          ''flagged'', ''hidden'', ''moderation'', ''user_info'', ''uri'', ''text'', ''tags'',
          ''group'', ''references'', ''target'', ''document''] a = drop_keys ?full a"
        by (rule drop_keys_eqI) (use pn in auto)
      ultimately show ?thesis
        using uri pn Some g by (auto simp: unfold)
    qed
  next
    case (Some p)
    note ps = Some
    obtain perms r where p: "p = JObj perms" "map_of perms ''read'' = Some r"
      using valid_permissions [OF valid Some] by blast
    have sh: "shared perms g = Inr (r = JArr [JStr (''group:'' @ g)])"
      using p by (simp add: shared_def)
    show ?thesis
    proof (cases "map_of a ''target''")
      case None
      have "drop_keys [''created'', ''updated'', ''user'', ''id'', ''links'',
          ''flagged'', ''hidden'', ''moderation'', ''user_info'', ''uri'', ''text'', ''tags'',
          ''group'', ''references'', ''permissions'', ''document''] a = drop_keys ?full a"
        by (rule drop_keys_eqI) (use None in auto)
      then show ?thesis
        using uri ps None g p sh by (auto simp: unfold)
    next
      case (Some t)
      obtain xs ts where "t = JArr xs" "as_dicts xs = Inr ts"
        using valid_target [OF valid Some] by blast
      then show ?thesis
        using uri ps Some g p sh by (auto simp: unfold)
    qed
  qed
qed

lemma create_uri_missing:
  assumes valid: "annotation_schema (JObj a)"
    and uri: "map_of a ''uri'' = None \<or> (\<exists>u. map_of a ''uri'' = Some (JStr u) \<and> strip u = [])"
  shows "CreateAnnotationSchema_validate dc req (JObj a) = Inl uri_required"
proof -
  have "\<exists>u. get a ''uri'' (JStr []) = JStr u \<and> strip u = []"
    using uri by (auto simp: get_def strip_def)
  then obtain u where "get a ''uri'' (JStr []) = JStr u" "strip u = []" by blast
  then show ?thesis
    by (simp add: CreateAnnotationSchema_validate_def AnnotationSchema_validate_def valid
        bindE_def pop_eq remove_protected_fields_eq get_drop_keys protected_fields_def
        Let_def)
qed

text \<open>The keys that the two pipelines can put into their output.\<close>

lemma keys_update_within:
  "fst ` set d \<subseteq> K \<Longrightarrow> key \<in> K \<Longrightarrow> fst ` set (AList.update key v d) \<subseteq> K"
  by (simp add: AList.dom_update)

lemma keys_opt_update_within:
  "fst ` set d \<subseteq> K \<Longrightarrow> key \<in> K \<Longrightarrow> fst ` set (opt_update key val d) \<subseteq> K"
  by (cases val) (simp_all add: opt_update_def AList.dom_update)

lemma create_output:
  assumes valid: "annotation_schema (JObj a)"
    and uri: "map_of a ''uri'' = Some (JStr u)" "strip u \<noteq> []"
  shows "\<exists>out sh.
    CreateAnnotationSchema_validate dc req (JObj a) = Inr out \<and>
    (case map_of a ''permissions'' of
       None \<Rightarrow> sh = False
     | Some p \<Rightarrow> \<exists>perms g. p = JObj perms \<and>
         get a ''group'' (JStr ''__world__'') = JStr g \<and> shared perms g = Inr sh) \<and>
    map_of out ''target_uri'' = Some (JStr (strip u)) \<and>
    map_of out ''groupid'' =
      (if truthy (get a ''references'' (JArr [])) then None
       else Some (get a ''group'' (JStr ''__world__''))) \<and>
    map_of out ''shared'' = Some (JBool sh) \<and>
    map_of out ''extra'' = Some (JObj (drop_keys (protected_fields @ create_fields) a)) \<and>
    fst ` set out \<subseteq>
      {''userid'', ''target_uri'', ''text'', ''tags'', ''groupid'', ''references'', ''shared'',
       ''target_selectors'', ''document'', ''extra''}"
proof -
  from create_normal_form [OF valid uri, of dc req] obtain sh sel
    where nf: "(case map_of a ''permissions'' of
         None \<Rightarrow> sh = False
       | Some p \<Rightarrow> \<exists>perms g. p = JObj perms \<and>
           get a ''group'' (JStr ''__world__'') = JStr g \<and> shared perms g = Inr sh) \<and>
      (case map_of a ''target'' of
         None \<Rightarrow> sel = []
       | Some t \<Rightarrow> \<exists>ts. as_targets t = Inr ts \<and>
           sel = [(''target_selectors'', target_selectors ts)]) \<and>
      CreateAnnotationSchema_validate dc req (JObj a) =
        Inr ([(''userid'', userid_value (authenticated_userid req)),
            (''target_uri'', JStr (strip u)),
            (''text'', get a ''text'' (JStr [])),
            (''tags'', get a ''tags'' (JArr []))] @
           (if truthy (get a ''references'' (JArr [])) then []
            else [(''groupid'', get a ''group'' (JStr ''__world__''))]) @
           [(''references'', get a ''references'' (JArr [])),
            (''shared'', JBool sh)] @
           sel @
           [(''document'', document dc (get a ''document'' (JObj [])) (JStr (strip u))),
            (''extra'', JObj (drop_keys (protected_fields @ create_fields) a))])"
    by (elim exE) (rule that)
  note sh = nf [THEN conjunct1]
    and sel = nf [THEN conjunct2, THEN conjunct1]
    and out = nf [THEN conjunct2, THEN conjunct2]
  from sel have "sel = [] \<or> (\<exists>v. sel = [(''target_selectors'', v)])"
    by (auto split: option.splits)
  then show ?thesis
  proof
    assume "sel = []"
    with sh out show ?thesis by simp
  next
    assume "\<exists>v. sel = [(''target_selectors'', v)]"
    then obtain v where "sel = [(''target_selectors'', v)]" ..
    with sh out show ?thesis by simp
  qed
qed

lemma update_output:
  assumes valid: "annotation_schema (JObj a)"
    and uri: "map_of a ''uri'' = map_option JStr uo"
    and nb: "\<forall>u. uo = Some u \<longrightarrow> strip u \<noteq> []"
  shows "\<exists>out po.
    UpdateAnnotationSchema_validate dc self (JObj a) = Inr out \<and>
    map_of a ''permissions'' = map_option JObj po \<and>
    (\<forall>p. po = Some p \<longrightarrow> map_of p ''read'' \<noteq> None) \<and>
    map_of out ''target_uri'' = map_option (\<lambda>u. JStr (strip u)) uo \<and>
    map_of out ''shared'' =
      map_option (\<lambda>p. JBool (map_of p ''read'' =
        Some (JArr [JStr (''group:'' @ groupid self)]))) po \<and>
    map_of out ''text'' = map_of a ''text'' \<and>
    map_of out ''tags'' = map_of a ''tags'' \<and>
    map_of out ''document'' =
      map_option
        (\<lambda>doc. document dc doc
           (JStr (case uo of None \<Rightarrow> existing_target_uri self | Some u \<Rightarrow> strip u)))
        (map_of a ''document'') \<and>
    map_of out ''extra'' =
      Some (JObj (drop_keys (protected_fields @ immutable_fields @ update_fields) a)) \<and>
    fst ` set out \<subseteq>
      {''target_uri'', ''shared'', ''target_selectors'', ''text'', ''tags'', ''document'',
       ''extra''}"
proof -
  from update_normal_form [OF valid uri nb, of dc self] obtain po xo ts
    where nf: "map_of a ''permissions'' = map_option JObj po \<and>
      (\<forall>p. po = Some p \<longrightarrow> map_of p ''read'' \<noteq> None) \<and>
      map_of a ''target'' = map_option JArr xo \<and>
      (\<forall>xs. xo = Some xs \<longrightarrow> as_dicts xs = Inr ts) \<and>
      UpdateAnnotationSchema_validate dc self (JObj a) =
      Inr (AList.update ''extra''
            (JObj (drop_keys (protected_fields @ immutable_fields @ update_fields) a))
          (opt_update ''document''
             (map_option
                (\<lambda>doc. document dc doc
                   (JStr (case uo of None \<Rightarrow> existing_target_uri self | Some u \<Rightarrow> strip u)))
                (map_of a ''document''))
          (opt_update ''tags'' (map_of a ''tags'')
          (opt_update ''text'' (map_of a ''text'')
          (opt_update ''target_selectors'' (map_option (\<lambda>xs. target_selectors ts) xo)
          (opt_update ''shared''
             (map_option
                (\<lambda>p. JBool (map_of p ''read'' =
                   Some (JArr [JStr (''group:'' @ groupid self)]))) po)
          (opt_update ''target_uri'' (map_option (\<lambda>u. JStr (strip u)) uo) [])))))))"
    by (elim exE) (rule that)
  note po = nf [THEN conjunct1]
    and rd = nf [THEN conjunct2, THEN conjunct1]
    and out = nf [THEN conjunct2, THEN conjunct2, THEN conjunct2, THEN conjunct2]
  let ?out = "AList.update ''extra''
            (JObj (drop_keys (protected_fields @ immutable_fields @ update_fields) a))
          (opt_update ''document''
             (map_option
                (\<lambda>doc. document dc doc
                   (JStr (case uo of None \<Rightarrow> existing_target_uri self | Some u \<Rightarrow> strip u)))
                (map_of a ''document''))
          (opt_update ''tags'' (map_of a ''tags'')
          (opt_update ''text'' (map_of a ''text'')
          (opt_update ''target_selectors'' (map_option (\<lambda>xs. target_selectors ts) xo)
          (opt_update ''shared''
             (map_option
                (\<lambda>p. JBool (map_of p ''read'' =
                   Some (JArr [JStr (''group:'' @ groupid self)]))) po)
          (opt_update ''target_uri'' (map_option (\<lambda>u. JStr (strip u)) uo) []))))))"
  have keys: "fst ` set ?out \<subseteq>
      {''target_uri'', ''shared'', ''target_selectors'', ''text'', ''tags'', ''document'',
       ''extra''}"
    by (intro keys_update_within keys_opt_update_within) simp_all
  have l1: "map_of ?out ''target_uri'' = map_option (\<lambda>u. JStr (strip u)) uo"
    by (cases uo) (simp_all add: AList.update_conv' map_of_opt_update)
  have l2: "map_of ?out ''shared'' =
      map_option (\<lambda>p. JBool (map_of p ''read'' =
        Some (JArr [JStr (''group:'' @ groupid self)]))) po"
    by (cases po) (simp_all add: AList.update_conv' map_of_opt_update)
  have l3: "map_of ?out ''text'' = map_of a ''text''"
    by (cases "map_of a ''text''") (simp_all add: AList.update_conv' map_of_opt_update)
  have l4: "map_of ?out ''tags'' = map_of a ''tags''"
    by (cases "map_of a ''tags''") (simp_all add: AList.update_conv' map_of_opt_update)
  have l5: "map_of ?out ''document'' =
      map_option
        (\<lambda>doc. document dc doc
           (JStr (case uo of None \<Rightarrow> existing_target_uri self | Some u \<Rightarrow> strip u)))
        (map_of a ''document'')"
    by (cases "map_of a ''document''") (simp_all add: AList.update_conv' map_of_opt_update)
  have l6: "map_of ?out ''extra'' =
      Some (JObj (drop_keys (protected_fields @ immutable_fields @ update_fields) a))"
    by (simp add: AList.update_conv')
  from out po rd keys l1 l2 l3 l4 l5 l6 show ?thesis by blast
qed


section \<open>The permission reduction and the selector extraction\<close>

text \<open>
  C2. \<open>shared\<close> returns true exactly when the \<^verbatim>\<open>read\<close> entry of the permissions dict is
  the one-element list \<^verbatim>\<open>["group:<groupid>"]\<close> for the group id it is given, and false for
  every other \<^verbatim>\<open>read\<close> value. Writing or removing any other key of the permissions dict
  (\<^verbatim>\<open>admin\<close>, \<^verbatim>\<open>delete\<close>, \<^verbatim>\<open>update\<close>) does not change the result.
\<close>

theorem shared_single_group_read:
  "(\<forall>r. map_of permissions ''read'' = Some r \<longrightarrow>
      shared permissions gid = Inr (r = JArr [JStr (''group:'' @ gid)])) \<and>
   (\<forall>key v. key \<noteq> ''read'' \<longrightarrow>
      shared (AList.update key v permissions) gid = shared permissions gid \<and>
      shared (AList.delete key permissions) gid = shared permissions gid)"
  by (simp add: shared_def AList.update_conv' AList.delete_conv')

theorem shared_single_group_read_witness:
  "shared [(''read'', JArr [JStr ''group:abc''])] ''abc'' = Inr True \<and>
   shared [(''read'', JArr [JStr ''group:abc'', JStr ''acct:x''])] ''abc'' = Inr False \<and>
   shared [(''read'', JArr [JStr ''group:xyz''])] ''abc'' = Inr False \<and>
   shared [(''read'', JArr [JStr ''acct:x''])] ''abc'' = Inr False \<and>
   shared [(''read'', JArr [JStr ''group:__world__''])] ''abc'' = Inr False \<and>
   shared (AList.update ''admin'' (JArr [JStr ''acct:x''])
     [(''read'', JArr [JStr ''group:abc''])]) ''abc'' = Inr True"
proof -
  have r: "map_of [(''read'', v)] ''read'' = Some v" for v :: json by simp
  have ne: "''admin'' \<noteq> ''read''" by simp
  note th = shared_single_group_read [THEN conjunct1, rule_format, OF r]
  note fr = shared_single_group_read [THEN conjunct2, rule_format, OF ne, THEN conjunct1]
  show ?thesis
    unfolding fr th by simp
qed

text \<open>
  C7. \<open>target_selectors\<close> returns the \<^verbatim>\<open>selector\<close> entry of the first target when the
  target list is not empty and its first element has that entry, and the empty list in
  every other case. The targets after the first and the other entries of the first target
  do not change the result.
\<close>

theorem target_selectors_first_target:
  "target_selectors [] = JArr [] \<and>
   (\<forall>t ts s. map_of t ''selector'' = Some s \<longrightarrow> target_selectors (t # ts) = s) \<and>
   (\<forall>t ts. map_of t ''selector'' = None \<longrightarrow> target_selectors (t # ts) = JArr []) \<and>
   (\<forall>t t' ts ts'. map_of t' ''selector'' = map_of t ''selector'' \<longrightarrow>
      target_selectors (t' # ts') = target_selectors (t # ts))"
  by simp

theorem target_selectors_first_target_witness:
  "target_selectors
     [[(''selector'', JArr [JObj [(''type'', JStr ''TextQuoteSelector'')]])],
      [(''selector'', JArr [JObj [(''type'', JStr ''X'')]])]] =
     JArr [JObj [(''type'', JStr ''TextQuoteSelector'')]] \<and>
   target_selectors [[(''source'', JStr ''http://example.com'')]] = JArr [] \<and>
   target_selectors
     [[(''source'', JStr ''s''), (''selector'', JArr [])], [(''selector'', JNull)]] =
     target_selectors [[(''selector'', JArr [])]]"
proof -
  have s: "map_of [(''selector'', v)] ''selector'' = Some v" for v :: json by simp
  have n: "map_of [(''source'', JStr ''http://example.com'')] ''selector'' = None" by simp
  have e: "map_of [(''source'', JStr ''s''), (''selector'', JArr [])] ''selector'' =
      map_of [(''selector'', JArr [])] ''selector''" by simp
  note a = target_selectors_first_target [THEN conjunct2, THEN conjunct1, rule_format, OF s]
  note b = target_selectors_first_target
    [THEN conjunct2, THEN conjunct2, THEN conjunct1, rule_format, OF n]
  note c = target_selectors_first_target
    [THEN conjunct2, THEN conjunct2, THEN conjunct2, rule_format, OF e]
  show ?thesis
    by (intro conjI a b c)
qed


section \<open>The create pipeline\<close>

lemma create_dichotomy:
  assumes valid: "annotation_schema (JObj a)"
  shows "(CreateAnnotationSchema_validate dc req (JObj a) = Inl uri_required \<and>
          (map_of a ''uri'' = None \<or> (\<exists>u. map_of a ''uri'' = Some (JStr u) \<and> strip u = []))) \<or>
         (\<exists>u. map_of a ''uri'' = Some (JStr u) \<and> strip u \<noteq> [])"
proof (cases "map_of a ''uri''")
  case None
  with create_uri_missing [OF valid, of dc req] show ?thesis by simp
next
  case (Some v)
  with valid_uri [OF valid Some] obtain u where u: "map_of a ''uri'' = Some (JStr u)" by auto
  show ?thesis
  proof (cases "strip u = []")
    case True
    with u create_uri_missing [OF valid, of dc req] show ?thesis by simp
  next
    case False
    with u show ?thesis by simp
  qed
qed

lemma create_success_uri:
  assumes valid: "annotation_schema (JObj a)"
    and out: "CreateAnnotationSchema_validate dc req (JObj a) = Inr out"
  shows "\<exists>u. map_of a ''uri'' = Some (JStr u) \<and> strip u \<noteq> []"
  using create_dichotomy [OF valid, of dc req] out by auto

text \<open>
  On a payload that fails structural validation create fails with the validator's error.
  On a validated payload the only error is the missing \<^verbatim>\<open>uri\<close>: the branches for values
  of another type than the schema's are never taken.
\<close>

lemma create_errors:
  assumes "CreateAnnotationSchema_validate dc req data = Inl e"
  shows "e = SchemaValidationError \<or> e = uri_required"
proof (cases "annotation_schema data")
  case False
  with assms show ?thesis
    by (simp add: CreateAnnotationSchema_validate_def AnnotationSchema_validate_def bindE_def)
next
  case True
  from annotation_schema_object [OF True] obtain a where a: "data = JObj a" ..
  from create_dichotomy [OF True [unfolded a], of dc req] show ?thesis
  proof
    assume "\<exists>u. map_of a ''uri'' = Some (JStr u) \<and> strip u \<noteq> []"
    then obtain u where "map_of a ''uri'' = Some (JStr u)" "strip u \<noteq> []" by blast
    from create_output [OF True [unfolded a] this, of dc req] assms a show ?thesis by auto
  next
    assume "CreateAnnotationSchema_validate dc req (JObj a) = Inl uri_required \<and>
      (map_of a ''uri'' = None \<or> (\<exists>u. map_of a ''uri'' = Some (JStr u) \<and> strip u = []))"
    with assms a show ?thesis by simp
  qed
qed

text \<open>
  C1. On a payload that passes structural validation, create fails with the
  validation error \<^verbatim>\<open>uri: 'uri' is a required property\<close> exactly when \<^verbatim>\<open>uri\<close> is absent or
  blank after stripping whitespace. A validated \<^verbatim>\<open>uri\<close> is absent or a string, and when
  the stripped string is not empty create succeeds and \<^verbatim>\<open>target_uri\<close> is the stripped
  \<^verbatim>\<open>uri\<close>.
\<close>

theorem create_uri_required:
  assumes "annotation_schema (JObj a)"
  shows "(CreateAnnotationSchema_validate dc req (JObj a) =
            Inl (ValidationError ''uri: 'uri' is a required property'') \<longleftrightarrow>
          map_of a ''uri'' = None \<or> (\<exists>u. map_of a ''uri'' = Some (JStr u) \<and> strip u = [])) \<and>
         (map_of a ''uri'' = None \<or> (\<exists>u. map_of a ''uri'' = Some (JStr u))) \<and>
         (\<forall>u. map_of a ''uri'' = Some (JStr u) \<and> strip u \<noteq> [] \<longrightarrow>
            (\<exists>out. CreateAnnotationSchema_validate dc req (JObj a) = Inr out \<and>
               map_of out ''target_uri'' = Some (JStr (strip u))))"
proof (intro conjI allI impI)
  show "CreateAnnotationSchema_validate dc req (JObj a) =
          Inl (ValidationError ''uri: 'uri' is a required property'') \<longleftrightarrow>
        map_of a ''uri'' = None \<or> (\<exists>u. map_of a ''uri'' = Some (JStr u) \<and> strip u = [])"
  proof
    assume failed: "CreateAnnotationSchema_validate dc req (JObj a) =
      Inl (ValidationError ''uri: 'uri' is a required property'')"
    from create_dichotomy [OF assms, of dc req]
    show "map_of a ''uri'' = None \<or> (\<exists>u. map_of a ''uri'' = Some (JStr u) \<and> strip u = [])"
    proof
      assume "\<exists>u. map_of a ''uri'' = Some (JStr u) \<and> strip u \<noteq> []"
      then obtain u where "map_of a ''uri'' = Some (JStr u)" "strip u \<noteq> []" by blast
      from create_output [OF assms this, of dc req] failed show ?thesis by auto
    qed simp
  next
    assume "map_of a ''uri'' = None \<or> (\<exists>u. map_of a ''uri'' = Some (JStr u) \<and> strip u = [])"
    from create_uri_missing [OF assms this, of dc req]
    show "CreateAnnotationSchema_validate dc req (JObj a) =
      Inl (ValidationError ''uri: 'uri' is a required property'')"
      by (simp add: uri_required_def)
  qed
next
  from create_dichotomy [OF assms, of dc req]
  show "map_of a ''uri'' = None \<or> (\<exists>u. map_of a ''uri'' = Some (JStr u))" by auto
next
  fix u
  assume "map_of a ''uri'' = Some (JStr u) \<and> strip u \<noteq> []"
  then have u: "map_of a ''uri'' = Some (JStr u)" "strip u \<noteq> []" by simp_all
  from create_output [OF assms u, of dc req]
  show "\<exists>out. CreateAnnotationSchema_validate dc req (JObj a) = Inr out \<and>
      map_of out ''target_uri'' = Some (JStr (strip u))"
    by blast
qed

theorem create_uri_required_witness:
  "annotation_schema (JObj [(''uri'', JStr ''  ''), (''text'', JStr ''hello'')]) \<and>
   CreateAnnotationSchema_validate sample_claims sample_request
     (JObj [(''uri'', JStr ''  ''), (''text'', JStr ''hello'')]) =
     Inl (ValidationError ''uri: 'uri' is a required property'') \<and>
   annotation_schema (JObj [(''text'', JStr ''hello'')]) \<and>
   CreateAnnotationSchema_validate sample_claims sample_request
     (JObj [(''text'', JStr ''hello'')]) =
     Inl (ValidationError ''uri: 'uri' is a required property'') \<and>
   annotation_schema (JObj [(''uri'', JStr '' http://example.com/ '')]) \<and>
   (\<exists>out. CreateAnnotationSchema_validate sample_claims sample_request
      (JObj [(''uri'', JStr '' http://example.com/ '')]) = Inr out \<and>
      map_of out ''target_uri'' = Some (JStr ''http://example.com/''))"
proof -
  have v1: "annotation_schema (JObj [(''uri'', JStr ''  ''), (''text'', JStr ''hello'')])"
    by code_simp
  have v2: "annotation_schema (JObj [(''text'', JStr ''hello'')])"
    by code_simp
  have v3: "annotation_schema (JObj [(''uri'', JStr '' http://example.com/ '')])"
    by code_simp
  have s1: "strip ''  '' = []" by code_simp
  have s3: "strip '' http://example.com/ '' = ''http://example.com/''" by code_simp
  have b1: "map_of [(''uri'', JStr ''  ''), (''text'', JStr ''hello'')] ''uri'' = None \<or>
      (\<exists>u. map_of [(''uri'', JStr ''  ''), (''text'', JStr ''hello'')] ''uri'' =
         Some (JStr u) \<and> strip u = [])"
    using s1 by simp
  have b2: "map_of [(''text'', JStr ''hello'')] ''uri'' = None \<or>
      (\<exists>u. map_of [(''text'', JStr ''hello'')] ''uri'' = Some (JStr u) \<and> strip u = [])"
    by simp
  have b3: "map_of [(''uri'', JStr '' http://example.com/ '')] ''uri'' =
      Some (JStr '' http://example.com/ '') \<and> strip '' http://example.com/ '' \<noteq> []"
    using s3 by simp
  note f1 = create_uri_required [OF v1, of sample_claims sample_request,
    THEN conjunct1, THEN iffD2, OF b1]
  note f2 = create_uri_required [OF v2, of sample_claims sample_request,
    THEN conjunct1, THEN iffD2, OF b2]
  note f3 = create_uri_required [OF v3, of sample_claims sample_request,
    THEN conjunct2, THEN conjunct2, rule_format, OF b3]
  from v1 f1 v2 f2 v3 f3 show ?thesis
    unfolding s3 by (intro conjI)
qed

text \<open>
  C3. On a validated payload that create accepts, a reply (a non-empty \<^verbatim>\<open>references\<close>
  list) has no \<^verbatim>\<open>groupid\<close> key in the output, whatever \<^verbatim>\<open>group\<close> the client sent; with
  \<^verbatim>\<open>references\<close> absent or empty, \<^verbatim>\<open>groupid\<close> is the client's \<^verbatim>\<open>group\<close>, or
  \<^verbatim>\<open>__world__\<close> when there is none.
\<close>

theorem create_groupid_of_reply:
  assumes "annotation_schema (JObj a)"
    and "map_of a ''uri'' = Some (JStr u)" and "strip u \<noteq> []"
  shows "\<exists>out. CreateAnnotationSchema_validate dc req (JObj a) = Inr out \<and>
    (\<forall>r rs. map_of a ''references'' = Some (JArr (r # rs)) \<longrightarrow>
       ''groupid'' \<notin> fst ` set out) \<and>
    (map_of a ''references'' = None \<or> map_of a ''references'' = Some (JArr []) \<longrightarrow>
       map_of out ''groupid'' = Some (get a ''group'' (JStr ''__world__'')))"
proof -
  from create_output [OF assms, of dc req] obtain out
    where out: "CreateAnnotationSchema_validate dc req (JObj a) = Inr out"
      and gid: "map_of out ''groupid'' =
        (if truthy (get a ''references'' (JArr [])) then None
         else Some (get a ''group'' (JStr ''__world__'')))"
    by blast
  have "''groupid'' \<notin> fst ` set out"
    if "map_of a ''references'' = Some (JArr (r # rs))" for r rs
    using gid that by (simp add: get_def map_of_eq_None_iff)
  moreover have "map_of out ''groupid'' = Some (get a ''group'' (JStr ''__world__''))"
    if "map_of a ''references'' = None \<or> map_of a ''references'' = Some (JArr [])"
    using gid that by (auto simp: get_def)
  ultimately show ?thesis using out by blast
qed

theorem create_groupid_of_reply_witness:
  "(\<exists>out. CreateAnnotationSchema_validate sample_claims sample_request
      (JObj [(''uri'', JStr ''http://example.com/''), (''group'', JStr ''abc''),
             (''references'', JArr [JStr ''parent''])]) = Inr out \<and>
      ''groupid'' \<notin> fst ` set out) \<and>
   (\<exists>out. CreateAnnotationSchema_validate sample_claims sample_request
      (JObj [(''uri'', JStr ''http://example.com/''), (''group'', JStr ''abc''),
             (''references'', JArr [])]) = Inr out \<and>
      map_of out ''groupid'' = Some (JStr ''abc'')) \<and>
   (\<exists>out. CreateAnnotationSchema_validate sample_claims sample_request
      (JObj [(''uri'', JStr ''http://example.com/'')]) = Inr out \<and>
      map_of out ''groupid'' = Some (JStr ''__world__''))"
proof -
  let ?a1 = "[(''uri'', JStr ''http://example.com/''), (''group'', JStr ''abc''),
             (''references'', JArr [JStr ''parent''])]"
  let ?a2 = "[(''uri'', JStr ''http://example.com/''), (''group'', JStr ''abc''),
             (''references'', JArr [])]"
  let ?a3 = "[(''uri'', JStr ''http://example.com/'')]"
  have v1: "annotation_schema (JObj ?a1)" by code_simp
  have v2: "annotation_schema (JObj ?a2)" by code_simp
  have v3: "annotation_schema (JObj ?a3)" by code_simp
  have s: "strip ''http://example.com/'' \<noteq> []" by code_simp
  have u1: "map_of ?a1 ''uri'' = Some (JStr ''http://example.com/'')" by simp
  have u2: "map_of ?a2 ''uri'' = Some (JStr ''http://example.com/'')" by simp
  have u3: "map_of ?a3 ''uri'' = Some (JStr ''http://example.com/'')" by simp
  from create_groupid_of_reply [OF v1 u1 s, of sample_claims sample_request]
  have c1: "\<exists>out. CreateAnnotationSchema_validate sample_claims sample_request
      (JObj ?a1) = Inr out \<and> ''groupid'' \<notin> fst ` set out"
    by simp
  from create_groupid_of_reply [OF v2 u2 s, of sample_claims sample_request]
  have c2: "\<exists>out. CreateAnnotationSchema_validate sample_claims sample_request
      (JObj ?a2) = Inr out \<and> map_of out ''groupid'' = Some (JStr ''abc'')"
    by (simp add: get_def)
  from create_groupid_of_reply [OF v3 u3 s, of sample_claims sample_request]
  have c3: "\<exists>out. CreateAnnotationSchema_validate sample_claims sample_request
      (JObj ?a3) = Inr out \<and> map_of out ''groupid'' = Some (JStr ''__world__'')"
    by (simp add: get_def)
  from c1 c2 c3 show ?thesis by (intro conjI)
qed

text \<open>
  C10. On a validated reply (non-empty \<^verbatim>\<open>references\<close>) that carries \<^verbatim>\<open>permissions\<close> and
  that create accepts, \<^verbatim>\<open>shared\<close> is the permission reduction against the client's
  \<^verbatim>\<open>group\<close> (\<^verbatim>\<open>__world__\<close> when there is none), and the output has no \<^verbatim>\<open>groupid\<close> key. The
  value depends on the payload alone: nothing of the parent annotation is an input.
\<close>

theorem reply_shared_against_client_group:
  assumes "annotation_schema (JObj a)"
    and "map_of a ''uri'' = Some (JStr u)" and "strip u \<noteq> []"
    and "map_of a ''references'' = Some (JArr (r # rs))"
    and "map_of a ''permissions'' = Some (JObj p)"
  shows "\<exists>out g b. CreateAnnotationSchema_validate dc req (JObj a) = Inr out \<and>
    get a ''group'' (JStr ''__world__'') = JStr g \<and>
    shared p g = Inr b \<and>
    map_of out ''shared'' = Some (JBool b) \<and>
    ''groupid'' \<notin> fst ` set out"
proof -
  from create_output [OF assms(1-3), of dc req] obtain out sh
    where out: "CreateAnnotationSchema_validate dc req (JObj a) = Inr out"
      and sh: "case map_of a ''permissions'' of
         None \<Rightarrow> sh = False
       | Some p \<Rightarrow> \<exists>perms g. p = JObj perms \<and>
           get a ''group'' (JStr ''__world__'') = JStr g \<and> shared perms g = Inr sh"
      and gid: "map_of out ''groupid'' =
        (if truthy (get a ''references'' (JArr [])) then None
         else Some (get a ''group'' (JStr ''__world__'')))"
      and shared: "map_of out ''shared'' = Some (JBool sh)"
    by blast
  from sh assms(5) obtain g
    where g: "get a ''group'' (JStr ''__world__'') = JStr g" "shared p g = Inr sh"
    by auto
  from gid assms(4) have "''groupid'' \<notin> fst ` set out"
    by (simp add: get_def map_of_eq_None_iff)
  with out g shared show ?thesis by blast
qed

theorem reply_shared_against_client_group_witness:
  "\<exists>out. CreateAnnotationSchema_validate sample_claims sample_request
      (JObj [(''uri'', JStr ''http://example.com/''), (''group'', JStr ''abc''),
             (''references'', JArr [JStr ''parent'']),
             (''permissions'', JObj [(''read'', JArr [JStr ''group:abc''])])]) = Inr out \<and>
      map_of out ''shared'' = Some (JBool True) \<and>
      ''groupid'' \<notin> fst ` set out"
proof -
  let ?a = "[(''uri'', JStr ''http://example.com/''), (''group'', JStr ''abc''),
             (''references'', JArr [JStr ''parent'']),
             (''permissions'', JObj [(''read'', JArr [JStr ''group:abc''])])]"
  have v: "annotation_schema (JObj ?a)" by code_simp
  have s: "strip ''http://example.com/'' \<noteq> []" by code_simp
  have u: "map_of ?a ''uri'' = Some (JStr ''http://example.com/'')" by simp
  have r: "map_of ?a ''references'' = Some (JArr (JStr ''parent'' # []))" by simp
  have p: "map_of ?a ''permissions'' = Some (JObj [(''read'', JArr [JStr ''group:abc''])])"
    by simp
  from reply_shared_against_client_group [OF v u s r p, of sample_claims sample_request]
  show ?thesis
    by (auto simp: get_def shared_def)
qed


section \<open>The update pipeline\<close>

lemma update_dichotomy:
  assumes valid: "annotation_schema (JObj a)"
  shows "(\<exists>u. map_of a ''uri'' = Some (JStr u) \<and> strip u = [] \<and>
            UpdateAnnotationSchema_validate dc self (JObj a) = Inl uri_required) \<or>
         (\<exists>uo. map_of a ''uri'' = map_option JStr uo \<and>
            (\<forall>u. uo = Some u \<longrightarrow> strip u \<noteq> []))"
proof -
  from uri_view [OF valid] obtain uo where uo: "map_of a ''uri'' = map_option JStr uo" ..
  show ?thesis
  proof (cases "\<exists>u. uo = Some u \<and> strip u = []")
    case True
    then obtain u where u: "uo = Some u" "strip u = []" by blast
    with uo have "map_of a ''uri'' = Some (JStr u)" by simp
    with update_uri_blank [OF valid this u(2), of dc self] u(2) show ?thesis by blast
  next
    case False
    then have "\<forall>u. uo = Some u \<longrightarrow> strip u \<noteq> []" by blast
    with uo show ?thesis by blast
  qed
qed

lemma update_success_uri:
  assumes valid: "annotation_schema (JObj a)"
    and out: "UpdateAnnotationSchema_validate dc self (JObj a) = Inr out"
  shows "\<exists>uo. map_of a ''uri'' = map_option JStr uo \<and>
    (\<forall>u. uo = Some u \<longrightarrow> strip u \<noteq> [])"
  using update_dichotomy [OF valid, of dc self] out by auto

lemma update_errors:
  assumes "UpdateAnnotationSchema_validate dc self data = Inl e"
  shows "e = SchemaValidationError \<or> e = uri_required"
proof (cases "annotation_schema data")
  case False
  with assms show ?thesis
    by (simp add: update_by_steps AnnotationSchema_validate_def bindE_def)
next
  case True
  from annotation_schema_object [OF True] obtain a where a: "data = JObj a" ..
  from update_dichotomy [OF True [unfolded a], of dc self] show ?thesis
  proof
    assume "\<exists>uo. map_of a ''uri'' = map_option JStr uo \<and>
      (\<forall>u. uo = Some u \<longrightarrow> strip u \<noteq> [])"
    then obtain uo where "map_of a ''uri'' = map_option JStr uo"
      "\<forall>u. uo = Some u \<longrightarrow> strip u \<noteq> []" by blast
    from update_output [OF True [unfolded a] this, of dc self] assms a show ?thesis by auto
  next
    assume "\<exists>u. map_of a ''uri'' = Some (JStr u) \<and> strip u = [] \<and>
      UpdateAnnotationSchema_validate dc self (JObj a) = Inl uri_required"
    with assms a show ?thesis by auto
  qed
qed

text \<open>
  C6. On a validated payload, update succeeds when \<^verbatim>\<open>uri\<close> is absent: the output has no
  \<^verbatim>\<open>target_uri\<close> key, and a \<^verbatim>\<open>document\<close> is projected with the existing target URI of the
  annotation as claimant. Update fails with the uri-required validation error when
  \<^verbatim>\<open>uri\<close> is present and blank after stripping. When \<^verbatim>\<open>uri\<close> is present and not blank,
  update succeeds and \<^verbatim>\<open>target_uri\<close> is the stripped \<^verbatim>\<open>uri\<close>.
\<close>

theorem update_uri_optional:
  assumes "annotation_schema (JObj a)"
  shows "(map_of a ''uri'' = None \<longrightarrow>
           (\<exists>out. UpdateAnnotationSchema_validate dc self (JObj a) = Inr out \<and>
              ''target_uri'' \<notin> fst ` set out \<and>
              (\<forall>doc. map_of a ''document'' = Some doc \<longrightarrow>
                 map_of out ''document'' =
                   Some (document dc doc (JStr (existing_target_uri self)))))) \<and>
         (\<forall>u. map_of a ''uri'' = Some (JStr u) \<and> strip u = [] \<longrightarrow>
            UpdateAnnotationSchema_validate dc self (JObj a) =
              Inl (ValidationError ''uri: 'uri' is a required property'')) \<and>
         (\<forall>u. map_of a ''uri'' = Some (JStr u) \<and> strip u \<noteq> [] \<longrightarrow>
            (\<exists>out. UpdateAnnotationSchema_validate dc self (JObj a) = Inr out \<and>
               map_of out ''target_uri'' = Some (JStr (strip u))))"
proof (intro conjI allI impI)
  assume none: "map_of a ''uri'' = None"
  then have uri: "map_of a ''uri'' = map_option JStr None" by simp
  have nb: "\<forall>u. (None :: string option) = Some u \<longrightarrow> strip u \<noteq> []" by simp
  from update_output [OF assms uri nb, of dc self] obtain out
    where out: "UpdateAnnotationSchema_validate dc self (JObj a) = Inr out"
      and tu: "map_of out ''target_uri'' = None"
      and doc: "map_of out ''document'' =
        map_option (\<lambda>doc. document dc doc (JStr (existing_target_uri self)))
          (map_of a ''document'')"
    by auto
  from tu have "''target_uri'' \<notin> fst ` set out" by (simp add: map_of_eq_None_iff)
  with out doc
  show "\<exists>out. UpdateAnnotationSchema_validate dc self (JObj a) = Inr out \<and>
      ''target_uri'' \<notin> fst ` set out \<and>
      (\<forall>doc. map_of a ''document'' = Some doc \<longrightarrow>
         map_of out ''document'' = Some (document dc doc (JStr (existing_target_uri self))))"
    by auto
next
  fix u
  assume "map_of a ''uri'' = Some (JStr u) \<and> strip u = []"
  then have u: "map_of a ''uri'' = Some (JStr u)" "strip u = []" by simp_all
  from update_uri_blank [OF assms u, of dc self]
  show "UpdateAnnotationSchema_validate dc self (JObj a) =
      Inl (ValidationError ''uri: 'uri' is a required property'')"
    by (simp add: uri_required_def)
next
  fix u
  assume "map_of a ''uri'' = Some (JStr u) \<and> strip u \<noteq> []"
  then have uri: "map_of a ''uri'' = map_option JStr (Some u)"
    and nb: "\<forall>u'. Some u = Some u' \<longrightarrow> strip u' \<noteq> []" by simp_all
  from update_output [OF assms uri nb, of dc self]
  show "\<exists>out. UpdateAnnotationSchema_validate dc self (JObj a) = Inr out \<and>
      map_of out ''target_uri'' = Some (JStr (strip u))"
    by auto
qed

theorem update_uri_optional_witness:
  "(\<exists>out. UpdateAnnotationSchema_validate sample_claims sample_update
      (JObj [(''text'', JStr ''hello''), (''document'', JObj [])]) = Inr out \<and>
      ''target_uri'' \<notin> fst ` set out \<and>
      map_of out ''document'' =
        Some (document sample_claims (JObj []) (JStr ''http://example.com/old''))) \<and>
   UpdateAnnotationSchema_validate sample_claims sample_update
     (JObj [(''uri'', JStr [])]) =
     Inl (ValidationError ''uri: 'uri' is a required property'') \<and>
   (\<exists>out. UpdateAnnotationSchema_validate sample_claims sample_update
      (JObj [(''uri'', JStr '' http://example.com/new '')]) = Inr out \<and>
      map_of out ''target_uri'' = Some (JStr ''http://example.com/new''))"
proof -
  let ?a1 = "[(''text'', JStr ''hello''), (''document'', JObj [])]"
  let ?a2 = "[(''uri'', JStr [])]"
  let ?a3 = "[(''uri'', JStr '' http://example.com/new '')]"
  have v1: "annotation_schema (JObj ?a1)" by code_simp
  have v2: "annotation_schema (JObj ?a2)" by code_simp
  have v3: "annotation_schema (JObj ?a3)" by code_simp
  have s3: "strip '' http://example.com/new '' = ''http://example.com/new''" by code_simp
  have h1: "map_of ?a1 ''uri'' = None" by simp
  have d1: "map_of ?a1 ''document'' = Some (JObj [])" by simp
  have h2: "map_of ?a2 ''uri'' = Some (JStr []) \<and> strip [] = []"
    by (simp add: strip_def)
  have h3: "map_of ?a3 ''uri'' = Some (JStr '' http://example.com/new '') \<and>
      strip '' http://example.com/new '' \<noteq> []"
    using s3 by simp
  from update_uri_optional [OF v1, of sample_claims sample_update,
      THEN conjunct1, rule_format, OF h1] d1
  have c1: "\<exists>out. UpdateAnnotationSchema_validate sample_claims sample_update
      (JObj ?a1) = Inr out \<and> ''target_uri'' \<notin> fst ` set out \<and>
      map_of out ''document'' =
        Some (document sample_claims (JObj []) (JStr ''http://example.com/old''))"
    by (auto simp: sample_update_def)
  note c2 = update_uri_optional [OF v2, of sample_claims sample_update,
      THEN conjunct2, THEN conjunct1, rule_format, OF h2]
  note c3 = update_uri_optional [OF v3, of sample_claims sample_update,
      THEN conjunct2, THEN conjunct2, rule_format, OF h3]
  from c1 c2 c3 show ?thesis
    unfolding s3 by (intro conjI)
qed

text \<open>
  C9. On a validated payload that create accepts, the output always has a boolean
  \<^verbatim>\<open>shared\<close>: false without \<^verbatim>\<open>permissions\<close>, and otherwise the permission reduction
  against the client's \<^verbatim>\<open>group\<close> (\<^verbatim>\<open>__world__\<close> when there is none). On a validated payload
  that update accepts, the output has a \<^verbatim>\<open>shared\<close> key exactly when \<^verbatim>\<open>permissions\<close> was
  supplied, and then it is the permission reduction against the annotation's own group.
\<close>

theorem shared_key_presence:
  assumes "annotation_schema (JObj a)"
  shows "(\<forall>out. CreateAnnotationSchema_validate dc req (JObj a) = Inr out \<longrightarrow>
            (\<exists>b. map_of out ''shared'' = Some (JBool b) \<and>
               (map_of a ''permissions'' = None \<longrightarrow> \<not> b) \<and>
               (\<forall>p. map_of a ''permissions'' = Some (JObj p) \<longrightarrow>
                  (\<exists>g. get a ''group'' (JStr ''__world__'') = JStr g \<and>
                     shared p g = Inr b)))) \<and>
         (\<forall>out. UpdateAnnotationSchema_validate dc self (JObj a) = Inr out \<longrightarrow>
            (''shared'' \<in> fst ` set out \<longleftrightarrow> map_of a ''permissions'' \<noteq> None) \<and>
            (\<forall>p. map_of a ''permissions'' = Some (JObj p) \<longrightarrow>
               (\<exists>b. shared p (groupid self) = Inr b \<and>
                  map_of out ''shared'' = Some (JBool b))))"
proof (intro conjI allI impI)
  fix out
  assume out: "CreateAnnotationSchema_validate dc req (JObj a) = Inr out"
  from create_success_uri [OF assms out] obtain u
    where u: "map_of a ''uri'' = Some (JStr u)" "strip u \<noteq> []" by blast
  from create_output [OF assms u, of dc req] out obtain sh
    where sh: "case map_of a ''permissions'' of
         None \<Rightarrow> sh = False
       | Some p \<Rightarrow> \<exists>perms g. p = JObj perms \<and>
           get a ''group'' (JStr ''__world__'') = JStr g \<and> shared perms g = Inr sh"
      and shared: "map_of out ''shared'' = Some (JBool sh)"
    by auto
  show "\<exists>b. map_of out ''shared'' = Some (JBool b) \<and>
      (map_of a ''permissions'' = None \<longrightarrow> \<not> b) \<and>
      (\<forall>p. map_of a ''permissions'' = Some (JObj p) \<longrightarrow>
         (\<exists>g. get a ''group'' (JStr ''__world__'') = JStr g \<and> shared p g = Inr b))"
  proof (intro exI [of _ sh] conjI allI impI)
    show "map_of out ''shared'' = Some (JBool sh)" by (rule shared)
    show "\<not> sh" if "map_of a ''permissions'' = None"
      using sh that by simp
    show "\<exists>g. get a ''group'' (JStr ''__world__'') = JStr g \<and> shared p g = Inr sh"
      if "map_of a ''permissions'' = Some (JObj p)" for p
      using sh that by simp
  qed
next
  fix out
  assume out: "UpdateAnnotationSchema_validate dc self (JObj a) = Inr out"
  from update_success_uri [OF assms out] obtain uo
    where uo: "map_of a ''uri'' = map_option JStr uo"
      and nb: "\<forall>u. uo = Some u \<longrightarrow> strip u \<noteq> []" by blast
  from update_output [OF assms uo nb, of dc self] out obtain po
    where po: "map_of a ''permissions'' = map_option JObj po"
      and rd: "\<forall>p. po = Some p \<longrightarrow> map_of p ''read'' \<noteq> None"
      and shared: "map_of out ''shared'' =
        map_option (\<lambda>p. JBool (map_of p ''read'' =
          Some (JArr [JStr (''group:'' @ groupid self)]))) po"
    by auto
  have "''shared'' \<in> fst ` set out \<longleftrightarrow> map_of out ''shared'' \<noteq> None"
    by (simp add: map_of_eq_None_iff)
  also have "\<dots> \<longleftrightarrow> map_of a ''permissions'' \<noteq> None"
    by (cases po) (simp_all add: shared po)
  finally show "''shared'' \<in> fst ` set out \<longleftrightarrow> map_of a ''permissions'' \<noteq> None" .
next
  fix out p
  assume out: "UpdateAnnotationSchema_validate dc self (JObj a) = Inr out"
    and p: "map_of a ''permissions'' = Some (JObj p)"
  from update_success_uri [OF assms out] obtain uo
    where uo: "map_of a ''uri'' = map_option JStr uo"
      and nb: "\<forall>u. uo = Some u \<longrightarrow> strip u \<noteq> []" by blast
  from update_output [OF assms uo nb, of dc self] out obtain po
    where po: "map_of a ''permissions'' = map_option JObj po"
      and rd: "\<forall>p. po = Some p \<longrightarrow> map_of p ''read'' \<noteq> None"
      and shared: "map_of out ''shared'' =
        map_option (\<lambda>p. JBool (map_of p ''read'' =
          Some (JArr [JStr (''group:'' @ groupid self)]))) po"
    by auto
  from p po have "po = Some p" by (cases po) simp_all
  with rd shared
  show "\<exists>b. shared p (groupid self) = Inr b \<and> map_of out ''shared'' = Some (JBool b)"
    by (simp add: shared_eq)
qed

theorem shared_key_presence_witness:
  "(\<exists>out. CreateAnnotationSchema_validate sample_claims sample_request
      (JObj [(''uri'', JStr ''http://example.com/'')]) = Inr out \<and>
      map_of out ''shared'' = Some (JBool False)) \<and>
   (\<exists>out. CreateAnnotationSchema_validate sample_claims sample_request
      (JObj [(''uri'', JStr ''http://example.com/''), (''group'', JStr ''abc''),
             (''permissions'', JObj [(''read'', JArr [JStr ''group:abc''])])]) = Inr out \<and>
      map_of out ''shared'' = Some (JBool True)) \<and>
   (\<exists>out. UpdateAnnotationSchema_validate sample_claims sample_update
      (JObj [(''text'', JStr ''hello'')]) = Inr out \<and> ''shared'' \<notin> fst ` set out) \<and>
   (\<exists>out. UpdateAnnotationSchema_validate sample_claims sample_update
      (JObj [(''permissions'', JObj [(''read'', JArr [JStr ''group:abc''])])]) = Inr out \<and>
      ''shared'' \<in> fst ` set out \<and> map_of out ''shared'' = Some (JBool True))"
proof -
  let ?a1 = "[(''uri'', JStr ''http://example.com/'')]"
  let ?a2 = "[(''uri'', JStr ''http://example.com/''), (''group'', JStr ''abc''),
             (''permissions'', JObj [(''read'', JArr [JStr ''group:abc''])])]"
  let ?a3 = "[(''text'', JStr ''hello'')]"
  let ?a4 = "[(''permissions'', JObj [(''read'', JArr [JStr ''group:abc''])])]"
  have v1: "annotation_schema (JObj ?a1)" by code_simp
  have v2: "annotation_schema (JObj ?a2)" by code_simp
  have v3: "annotation_schema (JObj ?a3)" by code_simp
  have v4: "annotation_schema (JObj ?a4)" by code_simp
  obtain o1 where o1: "CreateAnnotationSchema_validate sample_claims sample_request
      (JObj ?a1) = Inr o1"
    by (simp add: CreateAnnotationSchema_validate_def AnnotationSchema_validate_def v1
        bindE_def pop_eq get_def remove_protected_fields_eq drop_keys_simps
        protected_fields_def strip_def isspace_def Let_def)
  obtain o2 where o2: "CreateAnnotationSchema_validate sample_claims sample_request
      (JObj ?a2) = Inr o2"
    by (simp add: CreateAnnotationSchema_validate_def AnnotationSchema_validate_def v2
        bindE_def pop_eq get_def remove_protected_fields_eq drop_keys_simps
        protected_fields_def strip_def isspace_def Let_def shared_def)
  obtain o3 where o3: "UpdateAnnotationSchema_validate sample_claims sample_update
      (JObj ?a3) = Inr o3"
    by (simp add: update_by_steps update_steps_def AnnotationSchema_validate_def v3
        bindE_def drop_keys_simps protected_fields_def uri_step_def permissions_step_def
        target_step_def copy_step_def document_step_def)
  obtain o4 where o4: "UpdateAnnotationSchema_validate sample_claims sample_update
      (JObj ?a4) = Inr o4"
    by (simp add: update_by_steps update_steps_def AnnotationSchema_validate_def v4
        bindE_def drop_keys_simps protected_fields_def uri_step_def permissions_step_def
        target_step_def copy_step_def document_step_def shared_def)
  from shared_key_presence [OF v1, where dc = sample_claims and req = sample_request,
      THEN conjunct1, rule_format, OF o1]
  have c1: "map_of o1 ''shared'' = Some (JBool False)" by auto
  from shared_key_presence [OF v2, where dc = sample_claims and req = sample_request,
      THEN conjunct1, rule_format, OF o2]
  have c2: "map_of o2 ''shared'' = Some (JBool True)"
    by (auto simp: get_def shared_def)
  from shared_key_presence [OF v3, where dc = sample_claims and self = sample_update,
      THEN conjunct2, rule_format, OF o3]
  have c3: "''shared'' \<notin> fst ` set o3" by simp
  from shared_key_presence [OF v4, where dc = sample_claims and self = sample_update,
      THEN conjunct2, rule_format, OF o4]
  have c4: "''shared'' \<in> fst ` set o4 \<and> map_of o4 ''shared'' = Some (JBool True)"
    by (auto simp: shared_def sample_update_def)
  from o1 c1 o2 c2 o3 c3 o4 c4 show ?thesis by blast
qed


section \<open>Protected, immutable and unrecognised fields\<close>

lemma update_valid_eq:
  assumes "annotation_schema (JObj a)"
  shows "UpdateAnnotationSchema_validate dc self (JObj a) =
    update_steps dc self (drop_keys (protected_fields @ immutable_fields) a)"
  by (simp add: update_by_steps AnnotationSchema_validate_def assms bindE_def
      immutable_fields_def)

lemma create_output_keys:
  assumes valid: "annotation_schema (JObj a)"
    and out: "CreateAnnotationSchema_validate dc req (JObj a) = Inr out"
  shows "map_of out ''extra'' = Some (JObj (drop_keys (protected_fields @ create_fields) a)) \<and>
    fst ` set out \<subseteq>
      {''userid'', ''target_uri'', ''text'', ''tags'', ''groupid'', ''references'', ''shared'',
       ''target_selectors'', ''document'', ''extra''}"
proof -
  from create_success_uri [OF valid out] obtain u
    where u: "map_of a ''uri'' = Some (JStr u)" "strip u \<noteq> []" by blast
  from create_output [OF valid u, of dc req] obtain out' sh
    where nf: "CreateAnnotationSchema_validate dc req (JObj a) = Inr out' \<and>
    (case map_of a ''permissions'' of
       None \<Rightarrow> sh = False
     | Some p \<Rightarrow> \<exists>perms g. p = JObj perms \<and>
         get a ''group'' (JStr ''__world__'') = JStr g \<and> shared perms g = Inr sh) \<and>
    map_of out' ''target_uri'' = Some (JStr (strip u)) \<and>
    map_of out' ''groupid'' =
      (if truthy (get a ''references'' (JArr [])) then None
       else Some (get a ''group'' (JStr ''__world__''))) \<and>
    map_of out' ''shared'' = Some (JBool sh) \<and>
    map_of out' ''extra'' = Some (JObj (drop_keys (protected_fields @ create_fields) a)) \<and>
    fst ` set out' \<subseteq>
      {''userid'', ''target_uri'', ''text'', ''tags'', ''groupid'', ''references'', ''shared'',
       ''target_selectors'', ''document'', ''extra''}"
    by (elim exE) (rule that)
  from nf [THEN conjunct1] out have "out' = out" by simp
  with nf [THEN conjunct2, THEN conjunct2, THEN conjunct2, THEN conjunct2, THEN conjunct2]
  show ?thesis by simp
qed

lemma update_output_keys:
  assumes valid: "annotation_schema (JObj a)"
    and out: "UpdateAnnotationSchema_validate dc self (JObj a) = Inr out"
  shows "map_of out ''extra'' =
      Some (JObj (drop_keys (protected_fields @ immutable_fields @ update_fields) a)) \<and>
    fst ` set out \<subseteq>
      {''target_uri'', ''shared'', ''target_selectors'', ''text'', ''tags'', ''document'',
       ''extra''}"
proof -
  from update_success_uri [OF valid out] obtain uo
    where uo: "map_of a ''uri'' = map_option JStr uo"
      and nb: "\<forall>u. uo = Some u \<longrightarrow> strip u \<noteq> []" by blast
  from update_output [OF valid uo nb, of dc self] obtain out' po
    where nf: "UpdateAnnotationSchema_validate dc self (JObj a) = Inr out' \<and>
    map_of a ''permissions'' = map_option JObj po \<and>
    (\<forall>p. po = Some p \<longrightarrow> map_of p ''read'' \<noteq> None) \<and>
    map_of out' ''target_uri'' = map_option (\<lambda>u. JStr (strip u)) uo \<and>
    map_of out' ''shared'' =
      map_option (\<lambda>p. JBool (map_of p ''read'' =
        Some (JArr [JStr (''group:'' @ groupid self)]))) po \<and>
    map_of out' ''text'' = map_of a ''text'' \<and>
    map_of out' ''tags'' = map_of a ''tags'' \<and>
    map_of out' ''document'' =
      map_option
        (\<lambda>doc. document dc doc
           (JStr (case uo of None \<Rightarrow> existing_target_uri self | Some u \<Rightarrow> strip u)))
        (map_of a ''document'') \<and>
    map_of out' ''extra'' =
      Some (JObj (drop_keys (protected_fields @ immutable_fields @ update_fields) a)) \<and>
    fst ` set out' \<subseteq>
      {''target_uri'', ''shared'', ''target_selectors'', ''text'', ''tags'', ''document'',
       ''extra''}"
    by (elim exE) (rule that)
  from nf [THEN conjunct1] out have "out' = out" by simp
  with nf [THEN conjunct2, THEN conjunct2, THEN conjunct2, THEN conjunct2, THEN conjunct2,
    THEN conjunct2, THEN conjunct2, THEN conjunct2]
  show ?thesis by simp
qed

lemma protected_not_created:
  "key \<in> set protected_fields \<Longrightarrow>
     key \<notin> {''userid'', ''target_uri'', ''text'', ''tags'', ''groupid'', ''references'',
       ''shared'', ''target_selectors'', ''document'', ''extra''}"
  by (auto simp: protected_fields_def)

lemma immutable_not_updated:
  "key \<in> set protected_fields \<or> key \<in> set immutable_fields \<Longrightarrow>
     key \<notin> {''target_uri'', ''shared'', ''target_selectors'', ''text'', ''tags'',
       ''document'', ''extra''}"
  by (auto simp: protected_fields_def immutable_fields_def)

text \<open>
  C4. On a validated payload, whatever the client supplied, none of the nine protected
  fields is a key of the output of create or of update, and none is a key of the \<^verbatim>\<open>extra\<close>
  dict, which every output has.
\<close>

theorem protected_fields_never_returned:
  assumes "annotation_schema (JObj a)"
  shows "(\<forall>out. CreateAnnotationSchema_validate dc req (JObj a) = Inr out \<longrightarrow>
            (\<forall>key \<in> set protected_fields. key \<notin> fst ` set out) \<and>
            (\<exists>extra. map_of out ''extra'' = Some (JObj extra) \<and>
               (\<forall>key \<in> set protected_fields. key \<notin> fst ` set extra))) \<and>
         (\<forall>out. UpdateAnnotationSchema_validate dc self (JObj a) = Inr out \<longrightarrow>
            (\<forall>key \<in> set protected_fields. key \<notin> fst ` set out) \<and>
            (\<exists>extra. map_of out ''extra'' = Some (JObj extra) \<and>
               (\<forall>key \<in> set protected_fields. key \<notin> fst ` set extra)))"
proof (intro conjI allI impI)
  fix out
  assume out: "CreateAnnotationSchema_validate dc req (JObj a) = Inr out"
  note extra = create_output_keys [OF assms out, THEN conjunct1]
    and keys = create_output_keys [OF assms out, THEN conjunct2]
  show "\<forall>key \<in> set protected_fields. key \<notin> fst ` set out"
  proof
    fix key assume "key \<in> set protected_fields"
    from protected_not_created [OF this] keys show "key \<notin> fst ` set out" by blast
  qed
  show "\<exists>extra. map_of out ''extra'' = Some (JObj extra) \<and>
      (\<forall>key \<in> set protected_fields. key \<notin> fst ` set extra)"
  proof (intro exI conjI)
    show "map_of out ''extra'' =
        Some (JObj (drop_keys (protected_fields @ create_fields) a))" by (rule extra)
    show "\<forall>key \<in> set protected_fields.
        key \<notin> fst ` set (drop_keys (protected_fields @ create_fields) a)"
      by (simp add: keys_drop_keys)
  qed
next
  fix out
  assume out: "UpdateAnnotationSchema_validate dc self (JObj a) = Inr out"
  note extra = update_output_keys [OF assms out, THEN conjunct1]
    and keys = update_output_keys [OF assms out, THEN conjunct2]
  show "\<forall>key \<in> set protected_fields. key \<notin> fst ` set out"
  proof
    fix key assume "key \<in> set protected_fields"
    then have "key \<in> set protected_fields \<or> key \<in> set immutable_fields" ..
    from immutable_not_updated [OF this] keys show "key \<notin> fst ` set out" by blast
  qed
  show "\<exists>extra. map_of out ''extra'' = Some (JObj extra) \<and>
      (\<forall>key \<in> set protected_fields. key \<notin> fst ` set extra)"
  proof (intro exI conjI)
    show "map_of out ''extra'' =
        Some (JObj (drop_keys (protected_fields @ immutable_fields @ update_fields) a))"
      by (rule extra)
    show "\<forall>key \<in> set protected_fields.
        key \<notin> fst ` set (drop_keys (protected_fields @ immutable_fields @ update_fields) a)"
      by (simp add: keys_drop_keys)
  qed
qed

theorem protected_fields_never_returned_witness:
  "(\<exists>out extra. CreateAnnotationSchema_validate sample_claims sample_request
      (JObj [(''uri'', JStr ''http://example.com/''), (''id'', JStr ''x1''),
             (''user'', JStr ''acct:mallory''), (''custom'', JInt 1)]) = Inr out \<and>
      ''id'' \<notin> fst ` set out \<and> ''user'' \<notin> fst ` set out \<and>
      map_of out ''extra'' = Some (JObj extra) \<and>
      ''id'' \<notin> fst ` set extra \<and> ''user'' \<notin> fst ` set extra) \<and>
   (\<exists>out extra. UpdateAnnotationSchema_validate sample_claims sample_update
      (JObj [(''text'', JStr ''hello''), (''created'', JStr ''2015''),
             (''moderation'', JNull)]) = Inr out \<and>
      ''created'' \<notin> fst ` set out \<and> ''moderation'' \<notin> fst ` set out \<and>
      map_of out ''extra'' = Some (JObj extra) \<and>
      ''created'' \<notin> fst ` set extra \<and> ''moderation'' \<notin> fst ` set extra)"
proof -
  let ?a1 = "[(''uri'', JStr ''http://example.com/''), (''id'', JStr ''x1''),
             (''user'', JStr ''acct:mallory''), (''custom'', JInt 1)]"
  let ?a2 = "[(''text'', JStr ''hello''), (''created'', JStr ''2015''),
             (''moderation'', JNull)]"
  have v1: "annotation_schema (JObj ?a1)" by code_simp
  have v2: "annotation_schema (JObj ?a2)" by code_simp
  have p1: "''id'' \<in> set protected_fields" and p2: "''user'' \<in> set protected_fields"
    and p3: "''created'' \<in> set protected_fields"
    and p4: "''moderation'' \<in> set protected_fields"
    by (simp_all add: protected_fields_def)
  obtain o1 where o1: "CreateAnnotationSchema_validate sample_claims sample_request
      (JObj ?a1) = Inr o1"
    by (simp add: CreateAnnotationSchema_validate_def AnnotationSchema_validate_def v1
        bindE_def pop_eq get_def remove_protected_fields_eq drop_keys_simps
        protected_fields_def strip_def isspace_def Let_def)
  obtain o2 where o2: "UpdateAnnotationSchema_validate sample_claims sample_update
      (JObj ?a2) = Inr o2"
    by (simp add: update_by_steps update_steps_def AnnotationSchema_validate_def v2
        bindE_def drop_keys_simps protected_fields_def uri_step_def permissions_step_def
        target_step_def copy_step_def document_step_def)
  note t1 = protected_fields_never_returned [OF v1, where dc = sample_claims
      and req = sample_request, THEN conjunct1, rule_format, OF o1]
  note t2 = protected_fields_never_returned [OF v2, where dc = sample_claims
      and self = sample_update, THEN conjunct2, rule_format, OF o2]
  from t1 [THEN conjunct2] obtain e1
    where e1: "map_of o1 ''extra'' = Some (JObj e1)"
      and n1: "\<forall>key \<in> set protected_fields. key \<notin> fst ` set e1"
    by (elim exE conjE)
  from t2 [THEN conjunct2] obtain e2
    where e2: "map_of o2 ''extra'' = Some (JObj e2)"
      and n2: "\<forall>key \<in> set protected_fields. key \<notin> fst ` set e2"
    by (elim exE conjE)
  have c1: "CreateAnnotationSchema_validate sample_claims sample_request
      (JObj ?a1) = Inr o1 \<and>
      ''id'' \<notin> fst ` set o1 \<and> ''user'' \<notin> fst ` set o1 \<and>
      map_of o1 ''extra'' = Some (JObj e1) \<and>
      ''id'' \<notin> fst ` set e1 \<and> ''user'' \<notin> fst ` set e1"
    by (intro conjI o1 e1 bspec [OF t1 [THEN conjunct1] p1] bspec [OF t1 [THEN conjunct1] p2]
        bspec [OF n1 p1] bspec [OF n1 p2])
  have c2: "UpdateAnnotationSchema_validate sample_claims sample_update
      (JObj ?a2) = Inr o2 \<and>
      ''created'' \<notin> fst ` set o2 \<and> ''moderation'' \<notin> fst ` set o2 \<and>
      map_of o2 ''extra'' = Some (JObj e2) \<and>
      ''created'' \<notin> fst ` set e2 \<and> ''moderation'' \<notin> fst ` set e2"
    by (intro conjI o2 e2 bspec [OF t2 [THEN conjunct1] p3] bspec [OF t2 [THEN conjunct1] p4]
        bspec [OF n2 p3] bspec [OF n2 p4])
  show ?thesis
  proof (rule conjI)
    show "\<exists>out extra. CreateAnnotationSchema_validate sample_claims sample_request
        (JObj ?a1) = Inr out \<and>
        ''id'' \<notin> fst ` set out \<and> ''user'' \<notin> fst ` set out \<and>
        map_of out ''extra'' = Some (JObj extra) \<and>
        ''id'' \<notin> fst ` set extra \<and> ''user'' \<notin> fst ` set extra"
      by (rule exI [of _ o1], rule exI [of _ e1]) (rule c1)
    show "\<exists>out extra. UpdateAnnotationSchema_validate sample_claims sample_update
        (JObj ?a2) = Inr out \<and>
        ''created'' \<notin> fst ` set out \<and> ''moderation'' \<notin> fst ` set out \<and>
        map_of out ''extra'' = Some (JObj extra) \<and>
        ''created'' \<notin> fst ` set extra \<and> ''moderation'' \<notin> fst ` set extra"
      by (rule exI [of _ o2], rule exI [of _ e2]) (rule c2)
  qed
qed

text \<open>
  C5. On a validated payload that update accepts, none of \<^verbatim>\<open>group\<close>, \<^verbatim>\<open>groupid\<close>,
  \<^verbatim>\<open>userid\<close>, \<^verbatim>\<open>references\<close> is a key of the output or of its \<^verbatim>\<open>extra\<close> dict. Two validated
  payloads that differ only in these four fields get the same result from update, so
  the rest of the output does not depend on them.
\<close>

theorem update_discards_immutable_fields:
  assumes "annotation_schema (JObj a)"
  shows "(\<forall>out. UpdateAnnotationSchema_validate dc self (JObj a) = Inr out \<longrightarrow>
            (\<forall>key \<in> set immutable_fields. key \<notin> fst ` set out) \<and>
            (\<exists>extra. map_of out ''extra'' = Some (JObj extra) \<and>
               (\<forall>key \<in> set immutable_fields. key \<notin> fst ` set extra))) \<and>
         (\<forall>b. annotation_schema (JObj b) \<and>
              drop_keys immutable_fields b = drop_keys immutable_fields a \<longrightarrow>
            UpdateAnnotationSchema_validate dc self (JObj b) =
            UpdateAnnotationSchema_validate dc self (JObj a))"
proof (intro conjI allI impI)
  fix out
  assume out: "UpdateAnnotationSchema_validate dc self (JObj a) = Inr out"
  note extra = update_output_keys [OF assms out, THEN conjunct1]
    and keys = update_output_keys [OF assms out, THEN conjunct2]
  show "\<forall>key \<in> set immutable_fields. key \<notin> fst ` set out"
  proof
    fix key assume "key \<in> set immutable_fields"
    then have "key \<in> set protected_fields \<or> key \<in> set immutable_fields" ..
    from immutable_not_updated [OF this] keys show "key \<notin> fst ` set out" by blast
  qed
  show "\<exists>extra. map_of out ''extra'' = Some (JObj extra) \<and>
      (\<forall>key \<in> set immutable_fields. key \<notin> fst ` set extra)"
  proof (intro exI conjI)
    show "map_of out ''extra'' =
        Some (JObj (drop_keys (protected_fields @ immutable_fields @ update_fields) a))"
      by (rule extra)
    show "\<forall>key \<in> set immutable_fields.
        key \<notin> fst ` set (drop_keys (protected_fields @ immutable_fields @ update_fields) a)"
      by (simp add: keys_drop_keys)
  qed
next
  fix b
  assume b: "annotation_schema (JObj b) \<and>
    drop_keys immutable_fields b = drop_keys immutable_fields a"
  have split: "drop_keys (protected_fields @ immutable_fields) d =
      drop_keys protected_fields (drop_keys immutable_fields d)" for d
    unfolding drop_keys_drop_keys by (rule drop_keys_cong) auto
  have "UpdateAnnotationSchema_validate dc self (JObj b) =
      update_steps dc self (drop_keys protected_fields (drop_keys immutable_fields b))"
    using b by (simp only: update_valid_eq split)
  also have "\<dots> =
      update_steps dc self (drop_keys protected_fields (drop_keys immutable_fields a))"
    using b by simp
  also have "\<dots> = UpdateAnnotationSchema_validate dc self (JObj a)"
    using assms by (simp only: update_valid_eq split)
  finally show "UpdateAnnotationSchema_validate dc self (JObj b) =
      UpdateAnnotationSchema_validate dc self (JObj a)" .
qed

theorem update_discards_immutable_fields_witness:
  "(\<exists>out extra. UpdateAnnotationSchema_validate sample_claims sample_update
      (JObj [(''text'', JStr ''hello''), (''group'', JStr ''xyz''),
             (''userid'', JStr ''acct:mallory''), (''references'', JArr [JStr ''p''])]) =
        Inr out \<and>
      ''group'' \<notin> fst ` set out \<and> ''userid'' \<notin> fst ` set out \<and>
      ''references'' \<notin> fst ` set out \<and>
      map_of out ''extra'' = Some (JObj extra) \<and>
      ''group'' \<notin> fst ` set extra \<and> ''userid'' \<notin> fst ` set extra \<and>
      ''references'' \<notin> fst ` set extra) \<and>
   UpdateAnnotationSchema_validate sample_claims sample_update
     (JObj [(''text'', JStr ''hello'')]) =
   UpdateAnnotationSchema_validate sample_claims sample_update
     (JObj [(''text'', JStr ''hello''), (''group'', JStr ''xyz''),
            (''userid'', JStr ''acct:mallory''), (''references'', JArr [JStr ''p''])])"
proof -
  let ?a = "[(''text'', JStr ''hello''), (''group'', JStr ''xyz''),
             (''userid'', JStr ''acct:mallory''), (''references'', JArr [JStr ''p''])]"
  let ?b = "[(''text'', JStr ''hello'')]"
  have va: "annotation_schema (JObj ?a)" by code_simp
  have vb: "annotation_schema (JObj ?b) \<and>
      drop_keys immutable_fields ?b = drop_keys immutable_fields ?a"
    by code_simp
  have p1: "''group'' \<in> set immutable_fields" and p2: "''userid'' \<in> set immutable_fields"
    and p3: "''references'' \<in> set immutable_fields"
    by (simp_all add: immutable_fields_def)
  obtain o1 where o1: "UpdateAnnotationSchema_validate sample_claims sample_update
      (JObj ?a) = Inr o1"
    by (simp add: update_by_steps update_steps_def AnnotationSchema_validate_def va
        bindE_def drop_keys_simps protected_fields_def uri_step_def permissions_step_def
        target_step_def copy_step_def document_step_def)
  note t1 = update_discards_immutable_fields [OF va, where dc = sample_claims
      and self = sample_update, THEN conjunct1, rule_format, OF o1]
  note t2 = update_discards_immutable_fields [OF va, where dc = sample_claims
      and self = sample_update, THEN conjunct2, rule_format, OF vb]
  from t1 [THEN conjunct2] obtain e1
    where e1: "map_of o1 ''extra'' = Some (JObj e1)"
      and n1: "\<forall>key \<in> set immutable_fields. key \<notin> fst ` set e1"
    by (elim exE conjE)
  have c1: "UpdateAnnotationSchema_validate sample_claims sample_update (JObj ?a) = Inr o1 \<and>
      ''group'' \<notin> fst ` set o1 \<and> ''userid'' \<notin> fst ` set o1 \<and>
      ''references'' \<notin> fst ` set o1 \<and>
      map_of o1 ''extra'' = Some (JObj e1) \<and>
      ''group'' \<notin> fst ` set e1 \<and> ''userid'' \<notin> fst ` set e1 \<and>
      ''references'' \<notin> fst ` set e1"
    by (intro conjI o1 e1 bspec [OF t1 [THEN conjunct1] p1] bspec [OF t1 [THEN conjunct1] p2]
        bspec [OF t1 [THEN conjunct1] p3] bspec [OF n1 p1] bspec [OF n1 p2] bspec [OF n1 p3])
  show ?thesis
  proof (rule conjI)
    show "\<exists>out extra. UpdateAnnotationSchema_validate sample_claims sample_update
        (JObj ?a) = Inr out \<and>
        ''group'' \<notin> fst ` set out \<and> ''userid'' \<notin> fst ` set out \<and>
        ''references'' \<notin> fst ` set out \<and>
        map_of out ''extra'' = Some (JObj extra) \<and>
        ''group'' \<notin> fst ` set extra \<and> ''userid'' \<notin> fst ` set extra \<and>
        ''references'' \<notin> fst ` set extra"
      by (rule exI [of _ o1], rule exI [of _ e1]) (rule c1)
    show "UpdateAnnotationSchema_validate sample_claims sample_update (JObj ?b) =
        UpdateAnnotationSchema_validate sample_claims sample_update (JObj ?a)"
      by (rule t2)
  qed
qed

text \<open>
  C8. On a validated payload, the \<^verbatim>\<open>extra\<close> dict of create's output is the payload without
  the protected fields and without the eight fields create consumes, and the \<^verbatim>\<open>extra\<close>
  dict of update's output is the payload without the protected fields, the four discarded
  fields and the six fields update consumes: every other field is in \<^verbatim>\<open>extra\<close> with its
  value, and nothing else is. Writing a field that is not one of the eight keys of the
  schema keeps the payload valid and causes no error: an error raised with the field is
  also raised without it.
\<close>

theorem unrecognised_fields_go_to_extra:
  assumes "annotation_schema (JObj a)"
  shows "(\<forall>out. CreateAnnotationSchema_validate dc req (JObj a) = Inr out \<longrightarrow>
            map_of out ''extra'' =
              Some (JObj (drop_keys (protected_fields @ create_fields) a))) \<and>
         (\<forall>out. UpdateAnnotationSchema_validate dc self (JObj a) = Inr out \<longrightarrow>
            map_of out ''extra'' =
              Some (JObj (drop_keys (protected_fields @ immutable_fields @ update_fields) a))) \<and>
         (\<forall>key. map_of (drop_keys (protected_fields @ create_fields) a) key =
            (if key \<in> set (protected_fields @ create_fields) then None else map_of a key)) \<and>
         (\<forall>key. map_of (drop_keys (protected_fields @ immutable_fields @ update_fields) a) key =
            (if key \<in> set (protected_fields @ immutable_fields @ update_fields) then None
             else map_of a key)) \<and>
         (\<forall>key v. key \<notin> set create_fields \<longrightarrow>
            annotation_schema (JObj (AList.update key v a)) \<and>
            (\<forall>e. CreateAnnotationSchema_validate dc req (JObj (AList.update key v a)) = Inl e
               \<longrightarrow> CreateAnnotationSchema_validate dc req (JObj a) = Inl e) \<and>
            (\<forall>e. UpdateAnnotationSchema_validate dc self (JObj (AList.update key v a)) = Inl e
               \<longrightarrow> UpdateAnnotationSchema_validate dc self (JObj a) = Inl e))"
proof (intro conjI allI impI)
  fix out
  assume "CreateAnnotationSchema_validate dc req (JObj a) = Inr out"
  from create_output_keys [OF assms this, THEN conjunct1]
  show "map_of out ''extra'' = Some (JObj (drop_keys (protected_fields @ create_fields) a))" .
next
  fix out
  assume "UpdateAnnotationSchema_validate dc self (JObj a) = Inr out"
  from update_output_keys [OF assms this, THEN conjunct1]
  show "map_of out ''extra'' =
      Some (JObj (drop_keys (protected_fields @ immutable_fields @ update_fields) a))" .
next
  fix key
  show "map_of (drop_keys (protected_fields @ create_fields) a) key =
      (if key \<in> set (protected_fields @ create_fields) then None else map_of a key)"
    by (rule map_of_drop_keys)
next
  fix key
  show "map_of (drop_keys (protected_fields @ immutable_fields @ update_fields) a) key =
      (if key \<in> set (protected_fields @ immutable_fields @ update_fields) then None
       else map_of a key)"
    by (rule map_of_drop_keys)
next
  fix key v
  assume key: "key \<notin> set create_fields"
  have same: "map_of (AList.update key v a) k = map_of a k" if "k \<in> set create_fields" for k
    using key that by (auto simp: AList.update_conv')
  from annotation_schema_cong [of "AList.update key v a" a, OF same] assms
  show "annotation_schema (JObj (AList.update key v a))" by simp
next
  fix key v e
  assume key: "key \<notin> set create_fields"
    and e: "CreateAnnotationSchema_validate dc req (JObj (AList.update key v a)) = Inl e"
  have same: "map_of (AList.update key v a) k = map_of a k" if "k \<in> set create_fields" for k
    using key that by (auto simp: AList.update_conv')
  from annotation_schema_cong [of "AList.update key v a" a, OF same] assms
  have valid': "annotation_schema (JObj (AList.update key v a))" by simp
  have uri: "map_of (AList.update key v a) ''uri'' = map_of a ''uri''"
    by (rule same) (simp add: create_fields_def)
  from create_dichotomy [OF valid', of dc req]
  show "CreateAnnotationSchema_validate dc req (JObj a) = Inl e"
  proof
    assume "CreateAnnotationSchema_validate dc req (JObj (AList.update key v a)) =
        Inl uri_required \<and>
      (map_of (AList.update key v a) ''uri'' = None \<or>
       (\<exists>u. map_of (AList.update key v a) ''uri'' = Some (JStr u) \<and> strip u = []))"
    with e uri have "e = uri_required"
      and "map_of a ''uri'' = None \<or> (\<exists>u. map_of a ''uri'' = Some (JStr u) \<and> strip u = [])"
      by simp_all
    with create_uri_missing [OF assms, of dc req] show ?thesis by simp
  next
    assume "\<exists>u. map_of (AList.update key v a) ''uri'' = Some (JStr u) \<and> strip u \<noteq> []"
    then obtain u where "map_of (AList.update key v a) ''uri'' = Some (JStr u)"
      "strip u \<noteq> []" by blast
    from create_output [OF valid' this, of dc req] e show ?thesis by auto
  qed
next
  fix key v e
  assume key: "key \<notin> set create_fields"
    and e: "UpdateAnnotationSchema_validate dc self (JObj (AList.update key v a)) = Inl e"
  have same: "map_of (AList.update key v a) k = map_of a k" if "k \<in> set create_fields" for k
    using key that by (auto simp: AList.update_conv')
  from annotation_schema_cong [of "AList.update key v a" a, OF same] assms
  have valid': "annotation_schema (JObj (AList.update key v a))" by simp
  have uri: "map_of (AList.update key v a) ''uri'' = map_of a ''uri''"
    by (rule same) (simp add: create_fields_def)
  from update_dichotomy [OF valid', of dc self]
  show "UpdateAnnotationSchema_validate dc self (JObj a) = Inl e"
  proof
    assume "\<exists>u. map_of (AList.update key v a) ''uri'' = Some (JStr u) \<and> strip u = [] \<and>
      UpdateAnnotationSchema_validate dc self (JObj (AList.update key v a)) =
        Inl uri_required"
    then obtain u where u: "map_of (AList.update key v a) ''uri'' = Some (JStr u)"
      "strip u = []"
      and r: "UpdateAnnotationSchema_validate dc self (JObj (AList.update key v a)) =
        Inl uri_required" by blast
    from r e have eq: "e = uri_required" by simp
    from u uri have ua: "map_of a ''uri'' = Some (JStr u)" by simp
    from update_uri_blank [OF assms ua u(2), of dc self] eq show ?thesis by simp
  next
    assume "\<exists>uo. map_of (AList.update key v a) ''uri'' = map_option JStr uo \<and>
      (\<forall>u. uo = Some u \<longrightarrow> strip u \<noteq> [])"
    then obtain uo where "map_of (AList.update key v a) ''uri'' = map_option JStr uo"
      "\<forall>u. uo = Some u \<longrightarrow> strip u \<noteq> []" by blast
    from update_output [OF valid' this, of dc self] e show ?thesis by auto
  qed
qed

theorem unrecognised_fields_go_to_extra_witness:
  "(\<exists>out. CreateAnnotationSchema_validate sample_claims sample_request
      (JObj [(''uri'', JStr ''http://example.com/''), (''text'', JStr ''hello''),
             (''id'', JStr ''x1''), (''custom'', JInt 1),
             (''userid'', JStr ''acct:mallory'')]) = Inr out \<and>
      map_of out ''extra'' =
        Some (JObj [(''custom'', JInt 1), (''userid'', JStr ''acct:mallory'')])) \<and>
   (\<exists>out. UpdateAnnotationSchema_validate sample_claims sample_update
      (JObj [(''uri'', JStr ''http://example.com/''), (''text'', JStr ''hello''),
             (''id'', JStr ''x1''), (''custom'', JInt 1),
             (''userid'', JStr ''acct:mallory'')]) = Inr out \<and>
      map_of out ''extra'' = Some (JObj [(''custom'', JInt 1)])) \<and>
   annotation_schema
     (JObj (AList.update ''custom'' (JInt 1) [(''text'', JStr ''hello'')])) \<and>
   CreateAnnotationSchema_validate sample_claims sample_request
     (JObj [(''text'', JStr ''hello'')]) = Inl uri_required"
proof -
  let ?a = "[(''uri'', JStr ''http://example.com/''), (''text'', JStr ''hello''),
             (''id'', JStr ''x1''), (''custom'', JInt 1),
             (''userid'', JStr ''acct:mallory'')]"
  have v: "annotation_schema (JObj ?a)" by code_simp
  have v': "annotation_schema (JObj [(''text'', JStr ''hello'')])" by code_simp
  have k: "''custom'' \<notin> set create_fields" by (simp add: create_fields_def)
  have d1: "drop_keys (protected_fields @ create_fields) ?a =
      [(''custom'', JInt 1), (''userid'', JStr ''acct:mallory'')]"
    by code_simp
  have d2: "drop_keys (protected_fields @ immutable_fields @ update_fields) ?a =
      [(''custom'', JInt 1)]"
    by code_simp
  obtain o1 where o1: "CreateAnnotationSchema_validate sample_claims sample_request
      (JObj ?a) = Inr o1"
    by (simp add: CreateAnnotationSchema_validate_def AnnotationSchema_validate_def v
        bindE_def pop_eq get_def remove_protected_fields_eq drop_keys_simps
        protected_fields_def strip_def isspace_def Let_def)
  obtain o2 where o2: "UpdateAnnotationSchema_validate sample_claims sample_update
      (JObj ?a) = Inr o2"
    by (simp add: update_by_steps update_steps_def AnnotationSchema_validate_def v
        bindE_def drop_keys_simps protected_fields_def uri_step_def permissions_step_def
        target_step_def copy_step_def document_step_def strip_def isspace_def)
  note t1 = unrecognised_fields_go_to_extra [OF v, where dc = sample_claims
      and req = sample_request, THEN conjunct1, rule_format, OF o1, unfolded d1]
  note t2 = unrecognised_fields_go_to_extra [OF v, where dc = sample_claims
      and self = sample_update, THEN conjunct2, THEN conjunct1, rule_format, OF o2,
      unfolded d2]
  note t3 = unrecognised_fields_go_to_extra [OF v', THEN conjunct2, THEN conjunct2,
      THEN conjunct2, THEN conjunct2, rule_format, OF k, THEN conjunct1]
  have e: "CreateAnnotationSchema_validate sample_claims sample_request
      (JObj (AList.update ''custom'' (JInt 1) [(''text'', JStr ''hello'')])) =
      Inl uri_required"
    by (rule create_uri_missing [OF t3]) simp
  note t4 = unrecognised_fields_go_to_extra [OF v', where dc = sample_claims
      and req = sample_request, THEN conjunct2, THEN conjunct2, THEN conjunct2,
      THEN conjunct2, rule_format, OF k, THEN conjunct2, THEN conjunct1, rule_format, OF e]
  show ?thesis
  proof (intro conjI)
    show "\<exists>out. CreateAnnotationSchema_validate sample_claims sample_request
        (JObj ?a) = Inr out \<and>
        map_of out ''extra'' =
          Some (JObj [(''custom'', JInt 1), (''userid'', JStr ''acct:mallory'')])"
      by (rule exI [of _ o1]) (rule conjI [OF o1 t1])
    show "\<exists>out. UpdateAnnotationSchema_validate sample_claims sample_update
        (JObj ?a) = Inr out \<and>
        map_of out ''extra'' = Some (JObj [(''custom'', JInt 1)])"
      by (rule exI [of _ o2]) (rule conjI [OF o2 t2])
    show "annotation_schema
        (JObj (AList.update ''custom'' (JInt 1) [(''text'', JStr ''hello'')]))"
      by (rule t3)
    show "CreateAnnotationSchema_validate sample_claims sample_request
        (JObj [(''text'', JStr ''hello'')]) = Inl uri_required"
      by (rule t4)
  qed
qed

end
